theory Spec2Isabelle
  imports Complex_Main "HOL-Library.Sublist" "HOL-Library.List_Lexorder"
begin

section \<open>Python values used by \<^verbatim>\<open>lib/ocrqa_bloom.py\<close>\<close>

text \<open>
  A Python \<^verbatim>\<open>str\<close> is a sequence of Unicode code points, so \<^verbatim>\<open>len\<close> counts code
  points: a string is a list of naturals. \<open>ustr\<close> reads an ASCII literal as such a string.
  Python floats are modelled by exact reals: sums, comparisons and quotients are the
  mathematical ones.
\<close>

type_synonym pystr = "nat list"

definition ustr :: "string \<Rightarrow> pystr" where
  "ustr s = map of_char s"

datatype py_error = JSONDecodeError | IndexError | KeyError | ValueError | ZeroDivisionError

text \<open>\<^verbatim>\<open>xs[i]\<close>: a negative index counts from the end, an index out of range raises.\<close>

definition py_getitem :: "'a list \<Rightarrow> int \<Rightarrow> py_error + 'a" where
  "py_getitem xs i =
     (if 0 \<le> i \<and> i < int (length xs) then Inr (xs ! nat i)
      else if i < 0 \<and> - int (length xs) \<le> i then Inr (xs ! nat (int (length xs) + i))
      else Inl IndexError)"

text \<open>\<^verbatim>\<open>a / b\<close> on numbers raises on a zero divisor.\<close>

definition py_div :: "real \<Rightarrow> real \<Rightarrow> py_error + real" where
  "py_div a b = (if b \<noteq> 0 then Inr (a / b) else Inl ZeroDivisionError)"

text \<open>
  \<^verbatim>\<open>round(x, ndigits)\<close> rounds to the nearest multiple of \<open>10 ^ - ndigits\<close>, an exact
  tie going to the even neighbour. On a float the tie is decided on the binary value that
  is stored, so where the real quotient is an exact decimal tie the float may round to the
  other neighbour; the properties proved below rest only on the rounding being monotone
  and leaving 0 and 1 unchanged.
\<close>

definition round_half_even :: "real \<Rightarrow> int" where
  "round_half_even x =
     (let f = \<lfloor>x\<rfloor>; d = x - of_int f
      in if d < 1 / 2 then f
         else if 1 / 2 < d then f + 1
         else if even f then f else f + 1)"

definition py_round :: "real \<Rightarrow> nat \<Rightarrow> real" where
  "py_round x ndigits = of_int (round_half_even (x * 10 ^ ndigits)) / 10 ^ ndigits"

text \<open>\<^verbatim>\<open>xs.index(x)\<close>: the first position of \<open>x\<close>, \<^verbatim>\<open>ValueError\<close> when it is absent.\<close>

fun list_index :: "'a list \<Rightarrow> 'a \<Rightarrow> py_error + nat" where
  "list_index [] x = Inl ValueError"
| "list_index (y # ys) x =
     (if y = x then Inr 0
      else case list_index ys x of Inl e \<Rightarrow> Inl e | Inr k \<Rightarrow> Inr (Suc k))"

section \<open>Configuration, processor and accumulated statistics\<close>

text \<open>
  A Bloom filter is used only through \<^verbatim>\<open>subtok in bf\<close>: a total membership test.
\<close>

type_synonym bloom_filter = "pystr \<Rightarrow> bool"

datatype ocrqa_method = Slc | UnkRatio | UnkTypeRatio

datatype norm_form = NFC | NFD | NFKC | NFKD

text \<open>
  One line of the input stream, as \<^verbatim>\<open>json.loads\<close> sees it: text that does not
  parse (\<^verbatim>\<open>json.loads\<close> raises), or an object with an optional \<^verbatim>\<open>id\<close> and an optional
  \<^verbatim>\<open>ft\<close>, both strings. A line that parses to anything else (a value that is not an
  object, an \<^verbatim>\<open>ft\<close> that is not a string) is not among the inputs described here; on
  such a line the code raises \<^verbatim>\<open>AttributeError\<close>.
\<close>

datatype json_line = Unparseable | JObject (j_id: "pystr option") (j_ft: "pystr option")

definition json_loads :: "json_line \<Rightarrow> py_error + (pystr option \<times> pystr option)" where
  "json_loads line =
     (case line of Unparseable \<Rightarrow> Inl JSONDecodeError | JObject i ft \<Rightarrow> Inr (i, ft))"

text \<open>
  The \<^verbatim>\<open>argparse\<close> namespace: the options the processor reads. \<^verbatim>\<open>bloomdicts\<close> holds
  the identifiers of the Bloom dictionaries, \<^verbatim>\<open>languages\<close> the language codes;
  \<^verbatim>\<open>single_letter_cost\<close> is the number that \<^verbatim>\<open>float(...)\<close> reads from the option.
\<close>

record options =
  bloomdicts :: "pystr list"
  languages :: "pystr list"
  methods :: "ocrqa_method list"
  keep_best :: bool
  single_letter_cost :: real
  single_symbol_cost :: real
  unicode_normalization :: "norm_form option"
  min_subtokens :: int
  min_subtoken_length :: int
  verbose_output :: bool
  git_version :: "pystr option"

text \<open>
  The processor object: the options (\<^verbatim>\<open>self.options.x\<close> and its copy \<^verbatim>\<open>self.x\<close> are
  one field, neither is assigned after \<^verbatim>\<open>__init__\<close>), the loaded Bloom filters, the
  language identification data, the privileged single characters, the timestamp, and the
  library functions the code calls: \<^verbatim>\<open>str.lower\<close>, \<^verbatim>\<open>unicodedata.normalize\<close> and
  \<^verbatim>\<open>impresso_pipelines.ocrqa.ocrqa_pipeline.subtokens\<close> (text, minimum length,
  language). The language identification data maps a document id to its language; an
  entry whose language is \<^verbatim>\<open>None\<close> is read with \<^verbatim>\<open>.get\<close> only and so is the same as
  no entry. \<open>self_git_version\<close> is \<^verbatim>\<open>self.git_version\<close>, which \<^verbatim>\<open>__init__\<close> computes from
  the option and the environment.
\<close>

record processor = options +
  bloom_filters :: "bloom_filter list"
  lang_ident_data :: "(pystr option \<Rightarrow> pystr option) option"
  single_chars :: "pystr set"
  timestamp :: pystr
  str_lower :: "pystr \<Rightarrow> pystr"
  unicodedata_normalize :: "norm_form \<Rightarrow> pystr \<Rightarrow> pystr"
  subtokens :: "pystr \<Rightarrow> int \<Rightarrow> pystr option \<Rightarrow> pystr list"
  self_git_version :: "pystr option"

text \<open>
  The mutable attributes of the processor: \<^verbatim>\<open>ocrqa_stats\<close> (a list of scores),
  \<^verbatim>\<open>unks\<close> (per Bloom dictionary, a \<^verbatim>\<open>Counter\<close> of unknown subtokens) and
  \<^verbatim>\<open>lang_stats\<close> (a \<^verbatim>\<open>defaultdict(int)\<close>). A missing key of a counter reads as 0.
\<close>

record stats =
  ocrqa_stats :: "real list"
  unks :: "pystr \<Rightarrow> pystr \<Rightarrow> nat"
  lang_stats :: "pystr \<Rightarrow> nat"

section \<open>Subtoken extraction\<close>

definition compute_subtoken_char_ratio :: "pystr list \<Rightarrow> int \<Rightarrow> real" where
  "compute_subtoken_char_ratio subtoks_list char_length =
     (if char_length = 0 then 0
      else py_round (of_nat (length subtoks_list) / of_int char_length) 3)"

record subtoks_info =
  si_id :: "pystr option"
  si_subtokens :: "pystr list"
  si_char_length :: int

definition get_subtokens ::
  "'a processor_scheme \<Rightarrow> json_line \<Rightarrow> pystr option \<Rightarrow> py_error + subtoks_info" where
  "get_subtokens p line language =
     (case json_loads line of
        Inl e \<Rightarrow> Inl e
      | Inr (obj_id, obj_ft) \<Rightarrow>
          (case obj_ft of
             None \<Rightarrow> Inr \<lparr>si_id = obj_id, si_subtokens = [], si_char_length = 0\<rparr>
           | Some raw \<Rightarrow>
               (let ft = str_lower p raw;
                    ft = (case unicode_normalization p of
                            None \<Rightarrow> ft
                          | Some form \<Rightarrow> unicodedata_normalize p form ft)
                in Inr \<lparr>si_id = obj_id,
                        si_subtokens = subtokens p ft (min_subtoken_length p) language,
                        si_char_length = int (length ft)\<rparr>)))"

section \<open>The three score calculators\<close>

text \<open>
  The loop of \<^verbatim>\<open>compute_ocrqa_slc\<close>. The counter is the triple of its \<^verbatim>\<open>IV\<close>,
  \<^verbatim>\<open>SL\<close> and \<^verbatim>\<open>OOV\<close> entries (a missing entry of the \<^verbatim>\<open>defaultdict(float)\<close> is
  0.0). \<open>key\<close> is \<^verbatim>\<open>self.options.bloomdicts[i]\<close>, evaluated at each unknown subtoken.
\<close>

fun slc_loop ::
  "real \<Rightarrow> pystr set \<Rightarrow> bloom_filter \<Rightarrow> py_error + pystr \<Rightarrow> pystr list \<Rightarrow>
   real \<times> real \<times> real \<Rightarrow> (pystr \<Rightarrow> pystr \<Rightarrow> nat) \<Rightarrow>
   (py_error + real \<times> real \<times> real) \<times> (pystr \<Rightarrow> pystr \<Rightarrow> nat)" where
  "slc_loop cost singles bf key [] counter u = (Inr counter, u)"
| "slc_loop cost singles bf key (subtok # rest) (iv, sl, oov) u =
     (if bf subtok then
        (if 1 < length subtok \<or> subtok \<in> singles
         then slc_loop cost singles bf key rest (iv + 1, sl, oov) u
         else slc_loop cost singles bf key rest (iv, sl + cost, oov) u)
      else
        (case key of
           Inl e \<Rightarrow> (Inl e, u)
         | Inr k \<Rightarrow>
             slc_loop cost singles bf key rest (iv, sl, oov + 1)
               (u(k := (u k)(subtok := Suc (u k subtok))))))"

definition compute_ocrqa_slc ::
  "'a processor_scheme \<Rightarrow> pystr list \<Rightarrow> bloom_filter \<Rightarrow> nat \<Rightarrow> stats \<Rightarrow>
   (py_error + real) \<times> stats" where
  "compute_ocrqa_slc p subtoks_list bf i st =
     (case slc_loop (single_letter_cost p) (single_chars p) bf
             (py_getitem (bloomdicts p) (int i)) subtoks_list
             (0, - of_nat (length subtoks_list) / 20, 0) (unks st) of
        (Inl e, u) \<Rightarrow> (Inl e, st\<lparr>unks := u\<rparr>)
      | (Inr (iv, sl, oov), u) \<Rightarrow>
          (let sl = (if sl < 0 then 0 else sl);
               totalsub = sl + iv + oov
           in if totalsub = 0 then (Inr 0, st\<lparr>unks := u\<rparr>)
              else (case py_div iv totalsub of
                      Inl e \<Rightarrow> (Inl e, st\<lparr>unks := u\<rparr>)
                    | Inr q \<Rightarrow> (Inr (py_round q 2), st\<lparr>unks := u\<rparr>))))"

definition compute_ocrqa_unk_ratio :: "pystr list \<Rightarrow> bloom_filter \<Rightarrow> py_error + real" where
  "compute_ocrqa_unk_ratio subtoks_list bf =
     (let known_count = length (filter bf subtoks_list)
      in if subtoks_list = [] then Inr 0
         else (case py_div (of_nat known_count) (of_nat (length subtoks_list)) of
                 Inl e \<Rightarrow> Inl e
               | Inr q \<Rightarrow> Inr (py_round q 2)))"

text \<open>\<^verbatim>\<open>set(subtoks_list)\<close> is counted through the list of its distinct elements.\<close>

definition compute_ocrqa_unk_type_ratio :: "pystr list \<Rightarrow> bloom_filter \<Rightarrow> py_error + real" where
  "compute_ocrqa_unk_type_ratio subtoks_list bf =
     (let unique_subtoks = remdups subtoks_list;
          known_count = length (filter bf unique_subtoks)
      in if unique_subtoks = [] then Inr 0
         else (case py_div (of_nat known_count) (of_nat (length unique_subtoks)) of
                 Inl e \<Rightarrow> Inl e
               | Inr q \<Rightarrow> Inr (py_round q 2)))"

section \<open>Result records and \<^verbatim>\<open>compute_results\<close>\<close>

text \<open>
  The result dictionary. A key that is set only under a condition (\<^verbatim>\<open>ocrqa_slc\<close>,
  \<^verbatim>\<open>ocrqa_unk_ratio\<close>, \<^verbatim>\<open>ocrqa_unk_type_ratio\<close>, \<^verbatim>\<open>unk_freq\<close>) is an optional
  field; \<^verbatim>\<open>ocrqa\<close> starts as \<^verbatim>\<open>None\<close>. \<open>r_subtokens\<close>, \<open>r_timestamp\<close> and
  \<open>r_git_version\<close> are the keys \<^verbatim>\<open>subtokens\<close>, \<^verbatim>\<open>timestamp\<close> and \<^verbatim>\<open>git_version\<close>.
\<close>

record result =
  ci_id :: "pystr option"
  lg :: pystr
  ocrqa :: "real option"
  bloom :: pystr
  r_subtokens :: nat
  r_timestamp :: pystr
  r_git_version :: "pystr option"
  subtoken_char_ratio :: real
  ocrqa_slc :: "real option"
  ocrqa_unk_ratio :: "real option"
  ocrqa_unk_type_ratio :: "real option"
  unk_freq :: "(pystr \<times> nat) list option"

text \<open>
  The three blocks \<^verbatim>\<open>if "<method>" in self.methods:\<close> of \<^verbatim>\<open>compute_results\<close>. Each
  takes and returns the result under construction, the best value and the best index;
  \<open>n\<close> is \<^verbatim>\<open>len(results)\<close>. Only the \<^verbatim>\<open>slc\<close> block appends to \<^verbatim>\<open>ocrqa_stats\<close>.
\<close>

definition slc_block ::
  "'a processor_scheme \<Rightarrow> pystr list \<Rightarrow> bloom_filter \<Rightarrow> nat \<Rightarrow> ocrqa_method option \<Rightarrow> nat \<Rightarrow>
   result \<times> real \<times> int \<Rightarrow> stats \<Rightarrow> (py_error + result \<times> real \<times> int) \<times> stats" where
  "slc_block p subtoks_list bf lang_index keep_best_method n acc st =
     (case acc of (result, best_ocrqa_value, best_result_index) \<Rightarrow>
        if Slc \<in> set (methods p) then
          (case compute_ocrqa_slc p subtoks_list bf lang_index st of
             (Inl e, st1) \<Rightarrow> (Inl e, st1)
           | (Inr ocrqa_slc_v, st1) \<Rightarrow>
               (let st2 = st1\<lparr>ocrqa_stats := ocrqa_stats st1 @ [ocrqa_slc_v]\<rparr>;
                    result = result\<lparr>ocrqa_slc := Some ocrqa_slc_v\<rparr>
                in if keep_best_method = Some Slc \<and> best_ocrqa_value < ocrqa_slc_v
                   then (Inr (result, ocrqa_slc_v, int n), st2)
                   else (Inr (result, best_ocrqa_value, best_result_index), st2)))
        else (Inr acc, st))"

definition unk_ratio_block ::
  "'a processor_scheme \<Rightarrow> pystr list \<Rightarrow> bloom_filter \<Rightarrow> ocrqa_method option \<Rightarrow> nat \<Rightarrow>
   result \<times> real \<times> int \<Rightarrow> py_error + result \<times> real \<times> int" where
  "unk_ratio_block p subtoks_list bf keep_best_method n acc =
     (case acc of (result, best_ocrqa_value, best_result_index) \<Rightarrow>
        if UnkRatio \<in> set (methods p) then
          (case compute_ocrqa_unk_ratio subtoks_list bf of
             Inl e \<Rightarrow> Inl e
           | Inr ocrqa_unk_ratio_v \<Rightarrow>
               (let result = result\<lparr>ocrqa_unk_ratio := Some ocrqa_unk_ratio_v\<rparr>
                in if keep_best_method = Some UnkRatio \<and> best_ocrqa_value < ocrqa_unk_ratio_v
                   then Inr (result, ocrqa_unk_ratio_v, int n)
                   else Inr (result, best_ocrqa_value, best_result_index)))
        else Inr acc)"

definition unk_type_ratio_block ::
  "'a processor_scheme \<Rightarrow> pystr list \<Rightarrow> bloom_filter \<Rightarrow> ocrqa_method option \<Rightarrow> nat \<Rightarrow>
   result \<times> real \<times> int \<Rightarrow> py_error + result \<times> real \<times> int" where
  "unk_type_ratio_block p subtoks_list bf keep_best_method n acc =
     (case acc of (result, best_ocrqa_value, best_result_index) \<Rightarrow>
        if UnkTypeRatio \<in> set (methods p) then
          (case compute_ocrqa_unk_type_ratio subtoks_list bf of
             Inl e \<Rightarrow> Inl e
           | Inr ocrqa_unk_type_ratio_v \<Rightarrow>
               (let result = result\<lparr>ocrqa_unk_type_ratio := Some ocrqa_unk_type_ratio_v\<rparr>
                in if keep_best_method = Some UnkTypeRatio
                      \<and> best_ocrqa_value < ocrqa_unk_type_ratio_v
                   then Inr (result, ocrqa_unk_type_ratio_v, int n)
                   else Inr (result, best_ocrqa_value, best_result_index)))
        else Inr acc)"

text \<open>
  \<^verbatim>\<open>result["ocrqa"] = result["ocrqa_<first method>"]\<close>: reading a key that is not set
  raises \<^verbatim>\<open>KeyError\<close>.
\<close>

definition store_ocrqa :: "ocrqa_method \<Rightarrow> result \<Rightarrow> py_error + result" where
  "store_ocrqa first_method result =
     (case (case first_method of
              Slc \<Rightarrow> ocrqa_slc result
            | UnkRatio \<Rightarrow> ocrqa_unk_ratio result
            | UnkTypeRatio \<Rightarrow> ocrqa_unk_type_ratio result) of
        None \<Rightarrow> Inl KeyError
      | Some v \<Rightarrow> Inr (result\<lparr>ocrqa := Some v\<rparr>))"

text \<open>
  \<^verbatim>\<open>Counter(subtok for subtok in sorted(subtoks_list) if subtok not in bf)\<close>: the unknown
  subtoken types in sorted order, each with its number of occurrences.
\<close>

definition unknown_counter :: "pystr list \<Rightarrow> bloom_filter \<Rightarrow> (pystr \<times> nat) list" where
  "unknown_counter subtoks_list bf =
     (let unk = filter (\<lambda>subtok. \<not> bf subtok) (sort subtoks_list)
      in map (\<lambda>subtok. (subtok, count_list unk subtok)) (remdups unk))"

definition compute_results ::
  "'a processor_scheme \<Rightarrow> subtoks_info \<Rightarrow> pystr list \<Rightarrow> bloom_filter \<Rightarrow> pystr \<Rightarrow> nat \<Rightarrow>
   ocrqa_method option \<Rightarrow> real \<Rightarrow> int \<Rightarrow> result list \<Rightarrow> stats \<Rightarrow>
   (py_error + result \<times> real \<times> int) \<times> stats" where
  "compute_results p subtoks_info subtoks_list bf lang lang_index keep_best_method
       best_ocrqa_value best_result_index results st =
     (case py_getitem (bloomdicts p) (int lang_index) of
        Inl e \<Rightarrow> (Inl e, st)
      | Inr bloomdict \<Rightarrow>
          (let result =
                 \<lparr>ci_id = si_id subtoks_info, lg = lang, ocrqa = None, bloom = bloomdict,
                  r_subtokens = length subtoks_list, r_timestamp = timestamp p,
                  r_git_version = self_git_version p,
                  subtoken_char_ratio =
                    compute_subtoken_char_ratio subtoks_list (si_char_length subtoks_info),
                  ocrqa_slc = None, ocrqa_unk_ratio = None, ocrqa_unk_type_ratio = None,
                  unk_freq = None\<rparr>
           in case slc_block p subtoks_list bf lang_index keep_best_method (length results)
                     (result, best_ocrqa_value, best_result_index) st of
                (Inl e, st1) \<Rightarrow> (Inl e, st1)
              | (Inr acc1, st1) \<Rightarrow>
                  (case unk_ratio_block p subtoks_list bf keep_best_method (length results) acc1 of
                     Inl e \<Rightarrow> (Inl e, st1)
                   | Inr acc2 \<Rightarrow>
                       (case unk_type_ratio_block p subtoks_list bf keep_best_method
                               (length results) acc2 of
                          Inl e \<Rightarrow> (Inl e, st1)
                        | Inr (result, best_ocrqa_value, best_result_index) \<Rightarrow>
                            (case py_getitem (methods p) 0 of
                               Inl e \<Rightarrow> (Inl e, st1)
                             | Inr first_method \<Rightarrow>
                                 (case store_ocrqa first_method result of
                                    Inl e \<Rightarrow> (Inl e, st1)
                                  | Inr result \<Rightarrow>
                                      (let result =
                                             (if verbose_output p
                                              then result\<lparr>unk_freq :=
                                                     Some (unknown_counter subtoks_list bf)\<rparr>
                                              else result)
                                       in (Inr (result, best_ocrqa_value, best_result_index),
                                           st1))))))))"

section \<open>\<^verbatim>\<open>process_line\<close>\<close>

text \<open>\<^verbatim>\<open>self.lang_stats[key] += 1\<close>\<close>

definition count_lang :: "pystr \<Rightarrow> stats \<Rightarrow> stats" where
  "count_lang key st = st\<lparr>lang_stats := (lang_stats st)(key := Suc (lang_stats st key))\<rparr>"

text \<open>
  The chain \<^verbatim>\<open>if "ocrqa_slc" in result: ... elif "ocrqa_unk_ratio" in result: ... elif
  "ocrqa_unk_type_ratio" in result: ...\<close> that appends one score of a result to
  \<^verbatim>\<open>ocrqa_stats\<close>.
\<close>

definition append_stat :: "result \<Rightarrow> stats \<Rightarrow> stats" where
  "append_stat result st =
     (case ocrqa_slc result of
        Some v \<Rightarrow> st\<lparr>ocrqa_stats := ocrqa_stats st @ [v]\<rparr>
      | None \<Rightarrow>
          (case ocrqa_unk_ratio result of
             Some v \<Rightarrow> st\<lparr>ocrqa_stats := ocrqa_stats st @ [v]\<rparr>
           | None \<Rightarrow>
               (case ocrqa_unk_type_ratio result of
                  Some v \<Rightarrow> st\<lparr>ocrqa_stats := ocrqa_stats st @ [v]\<rparr>
                | None \<Rightarrow> st)))"

text \<open>
  \<^verbatim>\<open>keep_best_method = self.methods[0] if self.options.keep_best or len(self.methods) == 1
  else None\<close>
\<close>

definition keep_best_method_of :: "'a processor_scheme \<Rightarrow> py_error + ocrqa_method option" where
  "keep_best_method_of p =
     (if keep_best p \<or> length (methods p) = 1
      then (case py_getitem (methods p) 0 of Inl e \<Rightarrow> Inl e | Inr m \<Rightarrow> Inr (Some m))
      else Inr None)"

text \<open>
  What the first part of \<^verbatim>\<open>process_line\<close> (up to the final selection) ends with: an early
  \<^verbatim>\<open>return\<close> of a list, or the gathered \<^verbatim>\<open>results\<close> with \<^verbatim>\<open>best_ocrqa_value\<close> and
  \<^verbatim>\<open>best_result_index\<close>.
\<close>

datatype line_flow = Returned "result list" | Gathered "result list" real int

text \<open>
  The branch \<^verbatim>\<open>if lang:\<close> of \<^verbatim>\<open>process_line\<close>: the document has a language label. A
  result dictionary is never empty, so \<^verbatim>\<open>if result:\<close> holds and the result is appended.
\<close>

definition gather_labelled ::
  "'a processor_scheme \<Rightarrow> json_line \<Rightarrow> ocrqa_method option \<Rightarrow> pystr \<Rightarrow> stats \<Rightarrow>
   (py_error + line_flow) \<times> stats" where
  "gather_labelled p line keep_best_method lang st =
     (if lang \<notin> set (languages p)
      then (Inr (Returned []), count_lang (ustr ''missing-dict-for-'' @ lang) st)
      else
        (case get_subtokens p line (Some lang) of
           Inl e \<Rightarrow> (Inl e, st)
         | Inr subtoks_info \<Rightarrow>
             (let subtoks_list = si_subtokens subtoks_info
              in if int (length subtoks_list) < min_subtokens p then (Inr (Returned []), st)
                 else
                   (case list_index (languages p) lang of
                      Inl e \<Rightarrow> (Inl e, st)
                    | Inr lang_index \<Rightarrow>
                        (case py_getitem (bloom_filters p) (int lang_index) of
                           Inl e \<Rightarrow> (Inl e, st)
                         | Inr bf \<Rightarrow>
                             (case compute_results p subtoks_info subtoks_list bf lang lang_index
                                     keep_best_method (- 1) (- 1) [] st of
                                (Inl e, st1) \<Rightarrow> (Inl e, st1)
                              | (Inr (result, best_ocrqa_value, best_result_index), st1) \<Rightarrow>
                                  (Inr (Gathered [result] best_ocrqa_value best_result_index),
                                   count_lang lang st1)))))))"

text \<open>
  The loop \<^verbatim>\<open>for lang_index, bf in enumerate(self.bloom_filters):\<close> of the other branch.
\<close>

fun gather_all_languages ::
  "'a processor_scheme \<Rightarrow> json_line \<Rightarrow> ocrqa_method option \<Rightarrow> (nat \<times> bloom_filter) list \<Rightarrow>
   result list \<times> real \<times> int \<Rightarrow> stats \<Rightarrow> (py_error + result list \<times> real \<times> int) \<times> stats" where
  "gather_all_languages p line keep_best_method [] acc st = (Inr acc, st)"
| "gather_all_languages p line keep_best_method ((lang_index, bf) # rest)
       (results, best_ocrqa_value, best_result_index) st =
     (case py_getitem (languages p) (int lang_index) of
        Inl e \<Rightarrow> (Inl e, st)
      | Inr lang \<Rightarrow>
          (case get_subtokens p line (Some lang) of
             Inl e \<Rightarrow> (Inl e, st)
           | Inr subtoks_info \<Rightarrow>
               (let subtoks_list = si_subtokens subtoks_info
                in if int (length subtoks_list) < min_subtokens p
                   then gather_all_languages p line keep_best_method rest
                          (results, best_ocrqa_value, best_result_index) st
                   else
                     (case compute_results p subtoks_info subtoks_list bf lang lang_index
                             keep_best_method best_ocrqa_value best_result_index results st of
                        (Inl e, st1) \<Rightarrow> (Inl e, st1)
                      | (Inr (result, best_ocrqa_value, best_result_index), st1) \<Rightarrow>
                          gather_all_languages p line keep_best_method rest
                            (results @ [result], best_ocrqa_value, best_result_index)
                            (count_lang lang st1)))))"

text \<open>
  \<^verbatim>\<open>process_line\<close> up to the final selection. \<^verbatim>\<open>if lang:\<close> holds for a label that is
  neither \<^verbatim>\<open>None\<close> nor the empty string.
\<close>

definition gather_results ::
  "'a processor_scheme \<Rightarrow> json_line \<Rightarrow> stats \<Rightarrow> (py_error + line_flow) \<times> stats" where
  "gather_results p line st =
     (case json_loads line of
        Inl e \<Rightarrow> (Inl e, st)
      | Inr (docid, obj_ft) \<Rightarrow>
          (let lang = (case lang_ident_data p of None \<Rightarrow> None | Some d \<Rightarrow> d docid)
           in case keep_best_method_of p of
                Inl e \<Rightarrow> (Inl e, st)
              | Inr keep_best_method \<Rightarrow>
                  (case (case lang of None \<Rightarrow> None | Some l \<Rightarrow> if l = [] then None else Some l) of
                     Some l \<Rightarrow> gather_labelled p line keep_best_method l st
                   | None \<Rightarrow>
                       (case gather_all_languages p line keep_best_method
                               (enumerate 0 (bloom_filters p)) ([], - 1, - 1) st of
                          (Inl e, st1) \<Rightarrow> (Inl e, st1)
                        | (Inr (results, best_ocrqa_value, best_result_index), st1) \<Rightarrow>
                            (Inr (Gathered results best_ocrqa_value best_result_index), st1)))))"

text \<open>The final selection of \<^verbatim>\<open>process_line\<close>.\<close>

definition select_results ::
  "'a processor_scheme \<Rightarrow> result list \<Rightarrow> int \<Rightarrow> stats \<Rightarrow> (py_error + result list) \<times> stats" where
  "select_results p results best_result_index st =
     (if (keep_best p \<or> length (methods p) = 1) \<and> best_result_index \<noteq> - 1
      then (case py_getitem results best_result_index of
              Inl e \<Rightarrow> (Inl e, st)
            | Inr best_result \<Rightarrow> (Inr [best_result], append_stat best_result st))
      else (Inr results, foldl (\<lambda>s result. append_stat result s) st results))"

definition process_line ::
  "'a processor_scheme \<Rightarrow> json_line \<Rightarrow> stats \<Rightarrow> (py_error + result list) \<times> stats" where
  "process_line p line st =
     (case gather_results p line st of
        (Inl e, st1) \<Rightarrow> (Inl e, st1)
      | (Inr (Returned results), st1) \<Rightarrow> (Inr results, st1)
      | (Inr (Gathered results best_ocrqa_value best_result_index), st1) \<Rightarrow>
          select_results p results best_result_index st1)"

text \<open>
  The candidate records of a document: the \<^verbatim>\<open>results\<close> list the first part of
  \<^verbatim>\<open>process_line\<close> has built when the final selection starts (none after an early
  \<^verbatim>\<open>return\<close> or an exception).
\<close>

definition candidates :: "'a processor_scheme \<Rightarrow> json_line \<Rightarrow> stats \<Rightarrow> result list" where
  "candidates p line st =
     (case fst (gather_results p line st) of
        Inr (Gathered results best_ocrqa_value best_result_index) \<Rightarrow> results
      | _ \<Rightarrow> [])"

section \<open>\<^verbatim>\<open>run\<close>, \<^verbatim>\<open>__init__\<close> and \<^verbatim>\<open>main\<close>\<close>

text \<open>
  The loop of \<^verbatim>\<open>run\<close> over the lines of the input: \<open>out\<close> is what has been printed to
  the output file (every result is printed: \<^verbatim>\<open>if result:\<close> holds of a dictionary that is
  not empty). An exception of \<^verbatim>\<open>process_line\<close> is not caught here: it ends the loop,
  with the statistics and the output as they are at that moment. The input files are read
  one after the other, which is one loop over the lines of all of them.
\<close>

fun run_lines ::
  "'a processor_scheme \<Rightarrow> json_line list \<Rightarrow> stats \<Rightarrow> result list \<Rightarrow>
   py_error option \<times> stats \<times> result list" where
  "run_lines p [] st out = (None, st, out)"
| "run_lines p (line # rest) st out =
     (case process_line p line st of
        (Inl e, st1) \<Rightarrow> (Some e, st1, out)
      | (Inr results, st1) \<Rightarrow> run_lines p rest st1 (out @ results))"

text \<open>
  What a run leaves behind: the exception that ended it, if any; the printed records; the
  statistics; and the logged mean (\<^verbatim>\<open>STATS-MEANOCRAQ\<close>), which is absent when the run was
  ended by an exception or when \<^verbatim>\<open>ocrqa_stats\<close> is empty.
\<close>

record run_report =
  raised :: "py_error option"
  printed :: "result list"
  final_stats :: stats
  mean_ocrqa :: "real option"

definition run :: "'a processor_scheme \<Rightarrow> json_line list list \<Rightarrow> stats \<Rightarrow> run_report" where
  "run p input_files st =
     (case run_lines p (concat input_files) st [] of
        (Some e, st1, out) \<Rightarrow>
          \<lparr>raised = Some e, printed = out, final_stats = st1, mean_ocrqa = None\<rparr>
      | (None, st1, out) \<Rightarrow>
          \<lparr>raised = None, printed = out, final_stats = st1,
           mean_ocrqa =
             (if 0 < length (ocrqa_stats st1)
              then Some (sum_list (ocrqa_stats st1) / of_nat (length (ocrqa_stats st1)))
              else None)\<rparr>)"

text \<open>
  What \<^verbatim>\<open>__init__\<close> takes from outside the program: the loader of a Bloom filter, the
  language identification data read from \<^verbatim>\<open>--lid\<close>, the timestamp, the three library
  functions and the environment variable \<^verbatim>\<open>GIT_VERSION\<close>. The logging set-up and the check of the S3 output path are left out: they
  touch neither the records nor the statistics.
\<close>

record runtime =
  load_bloom_filter :: "pystr \<Rightarrow> bloom_filter"
  rt_lang_ident_data :: "(pystr option \<Rightarrow> pystr option) option"
  get_timestamp :: pystr
  rt_str_lower :: "pystr \<Rightarrow> pystr"
  rt_unicodedata_normalize :: "norm_form \<Rightarrow> pystr \<Rightarrow> pystr"
  rt_subtokens :: "pystr \<Rightarrow> int \<Rightarrow> pystr option \<Rightarrow> pystr list"
  environ_git_version :: "pystr option"

definition init :: "options \<Rightarrow> runtime \<Rightarrow> py_error + processor \<times> stats" where
  "init opts rt =
     (if length (bloomdicts opts) \<noteq> length (languages opts) then Inl ValueError
      else if min_subtoken_length opts < 1 then Inl ValueError
      else Inr (options.extend opts
                  (processor.fields (map (load_bloom_filter rt) (bloomdicts opts))
                     (rt_lang_ident_data rt) {[224], ustr ''n'', ustr ''d'', ustr ''l''}
                     (get_timestamp rt) (rt_str_lower rt) (rt_unicodedata_normalize rt)
                     (rt_subtokens rt)
                     (case git_version opts of
                        None \<Rightarrow> environ_git_version rt
                      | Some v \<Rightarrow> if v = [] then environ_git_version rt else Some v)),
                \<lparr>ocrqa_stats = [], unks = (\<lambda>bloomdict subtok. 0), lang_stats = (\<lambda>key. 0)\<rparr>))"

text \<open>
  \<^verbatim>\<open>main\<close>: the exit status and the printed records. Every exception of \<^verbatim>\<open>__init__\<close> and
  \<^verbatim>\<open>run\<close> is caught, logged and turned into \<^verbatim>\<open>sys.exit(1)\<close>.
\<close>

definition main :: "options \<Rightarrow> runtime \<Rightarrow> json_line list list \<Rightarrow> nat \<times> result list" where
  "main opts rt input_files =
     (if bloomdicts opts = [] then (1, [])
      else (case init opts rt of
              Inl e \<Rightarrow> (1, [])
            | Inr (processor, st) \<Rightarrow>
                (let report = run processor input_files st
                 in case raised report of
                      Some e \<Rightarrow> (1, printed report)
                    | None \<Rightarrow> (0, printed report))))"

section \<open>Notions used to state the properties\<close>

text \<open>
  The buckets of \<^verbatim>\<open>compute_ocrqa_slc\<close> as predicates on a subtoken, and the values the
  three calculators return, as functions of the subtokens and the oracle alone.
\<close>

definition slc_iv :: "pystr set \<Rightarrow> bloom_filter \<Rightarrow> pystr \<Rightarrow> bool" where
  "slc_iv singles bf t \<longleftrightarrow> bf t \<and> (1 < length t \<or> t \<in> singles)"

definition slc_sl :: "pystr set \<Rightarrow> bloom_filter \<Rightarrow> pystr \<Rightarrow> bool" where
  "slc_sl singles bf t \<longleftrightarrow> bf t \<and> \<not> (1 < length t \<or> t \<in> singles)"

definition slc_value :: "real \<Rightarrow> pystr set \<Rightarrow> bloom_filter \<Rightarrow> pystr list \<Rightarrow> real" where
  "slc_value cost singles bf xs =
     (let iv = real (length (filter (slc_iv singles bf) xs));
          sl = max 0 (cost * real (length (filter (slc_sl singles bf) xs)) - real (length xs) / 20);
          oov = real (length (filter (\<lambda>t. \<not> bf t) xs))
      in if sl + iv + oov = 0 then 0 else py_round (iv / (sl + iv + oov)) 2)"

definition unk_ratio_value :: "bloom_filter \<Rightarrow> pystr list \<Rightarrow> real" where
  "unk_ratio_value bf xs =
     (if xs = [] then 0 else py_round (real (length (filter bf xs)) / real (length xs)) 2)"

definition unk_type_ratio_value :: "bloom_filter \<Rightarrow> pystr list \<Rightarrow> real" where
  "unk_type_ratio_value bf xs = unk_ratio_value bf (remdups xs)"

definition method_score ::
  "'a processor_scheme \<Rightarrow> bloom_filter \<Rightarrow> pystr list \<Rightarrow> ocrqa_method \<Rightarrow> real" where
  "method_score p bf xs m =
     (case m of
        Slc \<Rightarrow> slc_value (single_letter_cost p) (single_chars p) bf xs
      | UnkRatio \<Rightarrow> unk_ratio_value bf xs
      | UnkTypeRatio \<Rightarrow> unk_type_ratio_value bf xs)"

text \<open>Best-selection is active: \<^verbatim>\<open>self.options.keep_best or len(self.methods) == 1\<close>.\<close>

definition best_selection_active :: "'a processor_scheme \<Rightarrow> bool" where
  "best_selection_active p \<longleftrightarrow> keep_best p \<or> length (methods p) = 1"

text \<open>
  A processor as \<^verbatim>\<open>__init__\<close> and \<^verbatim>\<open>argparse\<close> leave it: one Bloom filter and one
  dictionary identifier per language, and at least one method (\<^verbatim>\<open>nargs="+"\<close>).
\<close>

definition well_formed :: "'a processor_scheme \<Rightarrow> bool" where
  "well_formed p \<longleftrightarrow>
     length (bloomdicts p) = length (languages p) \<and>
     length (bloom_filters p) = length (languages p) \<and>
     methods p \<noteq> []"

text \<open>
  The candidate records of a whole run, document after document, the statistics threaded
  as \<^verbatim>\<open>run\<close> threads them.
\<close>

fun run_candidates :: "'a processor_scheme \<Rightarrow> json_line list \<Rightarrow> stats \<Rightarrow> result list" where
  "run_candidates p [] st = []"
| "run_candidates p (line # rest) st =
     candidates p line st @
     (case process_line p line st of
        (Inl e, st1) \<Rightarrow> []
      | (Inr results, st1) \<Rightarrow> run_candidates p rest st1)"

text \<open>
  The record that \<^verbatim>\<open>compute_results\<close> builds for one language, the update of the best
  value and index that one candidate causes, the candidates that the loop over all
  languages adds, and the best value and index after a list of candidates.
\<close>

definition expected_result ::
  "'a processor_scheme \<Rightarrow> subtoks_info \<Rightarrow> bloom_filter \<Rightarrow> pystr \<Rightarrow> nat \<Rightarrow> result" where
  "expected_result p info bf lang lang_index =
     \<lparr>ci_id = si_id info, lg = lang,
      ocrqa = Some (method_score p bf (si_subtokens info) (hd (methods p))),
      bloom = bloomdicts p ! lang_index,
      r_subtokens = length (si_subtokens info), r_timestamp = timestamp p,
      r_git_version = self_git_version p,
      subtoken_char_ratio =
        compute_subtoken_char_ratio (si_subtokens info) (si_char_length info),
      ocrqa_slc =
        (if Slc \<in> set (methods p) then Some (method_score p bf (si_subtokens info) Slc)
         else None),
      ocrqa_unk_ratio =
        (if UnkRatio \<in> set (methods p)
         then Some (method_score p bf (si_subtokens info) UnkRatio) else None),
      ocrqa_unk_type_ratio =
        (if UnkTypeRatio \<in> set (methods p)
         then Some (method_score p bf (si_subtokens info) UnkTypeRatio) else None),
      unk_freq =
        (if verbose_output p then Some (unknown_counter (si_subtokens info) bf) else None)\<rparr>"

definition next_best ::
  "ocrqa_method option \<Rightarrow> result \<Rightarrow> nat \<Rightarrow> real \<times> int \<Rightarrow> real \<times> int" where
  "next_best keep_best_method r n b =
     (case keep_best_method of
        None \<Rightarrow> b
      | Some m \<Rightarrow>
          (case ocrqa r of
             None \<Rightarrow> b
           | Some v \<Rightarrow> if fst b < v then (v, int n) else b))"

fun expected_candidates ::
  "'a processor_scheme \<Rightarrow> json_line \<Rightarrow> (nat \<times> bloom_filter) list \<Rightarrow> result list" where
  "expected_candidates p line [] = []"
| "expected_candidates p line ((i, bf) # rest) =
     (case get_subtokens p line (Some (languages p ! i)) of
        Inl e \<Rightarrow> []
      | Inr info \<Rightarrow>
          if int (length (si_subtokens info)) < min_subtokens p
          then expected_candidates p line rest
          else expected_result p info bf (languages p ! i) i # expected_candidates p line rest)"

fun track_best ::
  "ocrqa_method option \<Rightarrow> result list \<Rightarrow> nat \<Rightarrow> real \<times> int \<Rightarrow> real \<times> int" where
  "track_best kbm [] n b = b"
| "track_best kbm (r # rs) n b = track_best kbm rs (Suc n) (next_best kbm r n b)"

text \<open>The value of \<^verbatim>\<open>keep_best_method\<close> when \<^verbatim>\<open>self.methods\<close> is not empty.\<close>

definition method_kept :: "'a processor_scheme \<Rightarrow> ocrqa_method option" where
  "method_kept p = (if best_selection_active p then Some (hd (methods p)) else None)"

text \<open>
  The pair of best value and best index points at the earliest record of maximal
  \<^verbatim>\<open>ocrqa\<close>, or is the initial \<open>(-1, -1)\<close> when there is no record.
\<close>

definition best_tracked :: "result list \<Rightarrow> real \<times> int \<Rightarrow> bool" where
  "best_tracked rs b \<longleftrightarrow>
     (rs = [] \<and> b = (- 1, - 1)) \<or>
     (\<exists>k<length rs. snd b = int k \<and> ocrqa (rs ! k) = Some (fst b)
        \<and> (\<forall>j<length rs. \<exists>w. ocrqa (rs ! j) = Some w \<and> w \<le> fst b)
        \<and> (\<forall>j<k. \<exists>w. ocrqa (rs ! j) = Some w \<and> w < fst b))"

text \<open>Position \<open>k\<close> holds the earliest record of maximal \<^verbatim>\<open>ocrqa\<close>.\<close>

definition earliest_maximum :: "result list \<Rightarrow> nat \<Rightarrow> bool" where
  "earliest_maximum rs k \<longleftrightarrow>
     k < length rs
     \<and> (\<exists>v. ocrqa (rs ! k) = Some v
           \<and> (\<forall>j<length rs. \<exists>w. ocrqa (rs ! j) = Some w \<and> w \<le> v)
           \<and> (\<forall>j<k. \<exists>w. ocrqa (rs ! j) = Some w \<and> w < v))"

text \<open>What holds of the outcome of the first part of \<^verbatim>\<open>process_line\<close>.\<close>

definition flow_ok :: "'a processor_scheme \<Rightarrow> line_flow \<Rightarrow> bool" where
  "flow_ok p flow =
     (case flow of
        Returned rs \<Rightarrow> rs = []
      | Gathered rs bv bi \<Rightarrow>
          (bv, bi) = track_best (method_kept p) rs 0 (- 1, - 1)
          \<and> (\<forall>r \<in> set rs. \<exists>v. ocrqa r = Some v \<and> 0 \<le> v \<and> v \<le> 1)
          \<and> subseq (map lg rs) (languages p))"

text \<open>The gathered records of an outcome (none after an early \<^verbatim>\<open>return\<close>).\<close>

definition gathered :: "line_flow \<Rightarrow> result list" where
  "gathered flow = (case flow of Returned rs \<Rightarrow> [] | Gathered rs bv bi \<Rightarrow> rs)"

text \<open>
  The language label of a document: its entry in the language identification data, when
  that is a non-empty string.
\<close>

definition language_label :: "'a processor_scheme \<Rightarrow> pystr option \<Rightarrow> pystr option" where
  "language_label p docid =
     (case lang_ident_data p of
        None \<Rightarrow> None
      | Some d \<Rightarrow> (case d docid of None \<Rightarrow> None | Some l \<Rightarrow> if l = [] then None else Some l))"

text \<open>
  The languages a document is tried against: the language of its label when that is a
  configured language (none when it is not), every configured language in turn when the
  document has no label.
\<close>

definition trial_languages :: "'a processor_scheme \<Rightarrow> json_line \<Rightarrow> pystr list" where
  "trial_languages p line =
     (case line of
        Unparseable \<Rightarrow> []
      | JObject docid ft \<Rightarrow>
          (case language_label p docid of
             None \<Rightarrow> languages p
           | Some l \<Rightarrow> if l \<in> set (languages p) then [l] else []))"

text \<open>
  The number of subtokens of a document for a language: those of its lowercased,
  normalized text, none when the record has no text.
\<close>

definition subtoken_count :: "'a processor_scheme \<Rightarrow> json_line \<Rightarrow> pystr \<Rightarrow> int" where
  "subtoken_count p line lang =
     (case line of
        Unparseable \<Rightarrow> 0
      | JObject docid None \<Rightarrow> 0
      | JObject docid (Some raw) \<Rightarrow>
          int (length
            (subtokens p
               (case unicode_normalization p of
                  None \<Rightarrow> str_lower p raw
                | Some form \<Rightarrow> unicodedata_normalize p form (str_lower p raw))
               (min_subtoken_length p) (Some lang))))"

text \<open>
  The trials of a document that meet the minimum subtoken count, as the list of their
  languages.
\<close>

definition counted_trials :: "'a processor_scheme \<Rightarrow> json_line \<Rightarrow> pystr list" where
  "counted_trials p line =
     filter (\<lambda>lang. min_subtokens p \<le> subtoken_count p line lang) (trial_languages p line)"

text \<open>The same input line with its text field replaced by its lowercased form.\<close>

definition lowercased :: "'a processor_scheme \<Rightarrow> json_line \<Rightarrow> json_line" where
  "lowercased p line =
     (case line of
        Unparseable \<Rightarrow> Unparseable
      | JObject i ft \<Rightarrow> JObject i (map_option (str_lower p) ft))"

section \<open>A small configuration on which the properties are instantiated\<close>

text \<open>
  Two languages with a vocabulary of two words each, a tokenizer that splits at spaces,
  a lowercasing of the ASCII letters and a normalization that changes nothing.
\<close>

definition oracle_of :: "pystr list \<Rightarrow> bloom_filter" where
  "oracle_of vocabulary subtok \<longleftrightarrow> subtok \<in> set vocabulary"

definition ascii_lower :: "pystr \<Rightarrow> pystr" where
  "ascii_lower s = map (\<lambda>c. if 65 \<le> c \<and> c \<le> 90 then c + 32 else c) s"

fun split_spaces :: "pystr \<Rightarrow> pystr \<Rightarrow> pystr list" where
  "split_spaces [] word = (if word = [] then [] else [word])"
| "split_spaces (c # cs) word =
     (if c = 32 then (if word = [] then split_spaces cs [] else word # split_spaces cs [])
      else split_spaces cs (word @ [c]))"

definition space_subtokens :: "pystr \<Rightarrow> int \<Rightarrow> pystr option \<Rightarrow> pystr list" where
  "space_subtokens ft min_length language =
     filter (\<lambda>w. min_length \<le> int (length w)) (split_spaces ft [])"

definition ex_options :: options where
  "ex_options =
     \<lparr>bloomdicts = [ustr ''en.bloom'', ustr ''fr.bloom''],
      languages = [ustr ''en'', ustr ''fr''],
      methods = [Slc],
      keep_best = False,
      single_letter_cost = 7 / 10,
      single_symbol_cost = 3 / 10,
      unicode_normalization = Some NFKC,
      min_subtokens = 2,
      min_subtoken_length = 1,
      verbose_output = False,
      git_version = None\<rparr>"

definition ex_runtime :: runtime where
  "ex_runtime =
     \<lparr>load_bloom_filter =
        (\<lambda>bloomdict. if bloomdict = ustr ''en.bloom''
                      then oracle_of [ustr ''the'', ustr ''cat'']
                      else oracle_of [ustr ''le'', ustr ''chat'']),
      rt_lang_ident_data = None,
      get_timestamp = ustr ''2024-01-01T00:00:00Z'',
      rt_str_lower = ascii_lower,
      rt_unicodedata_normalize = (\<lambda>form s. s),
      rt_subtokens = space_subtokens,
      environ_git_version = None\<rparr>"

definition ex_processor :: processor where
  "ex_processor =
     options.extend ex_options
       (processor.fields (map (load_bloom_filter ex_runtime) (bloomdicts ex_options))
          (rt_lang_ident_data ex_runtime) {[224], ustr ''n'', ustr ''d'', ustr ''l''}
          (get_timestamp ex_runtime) (rt_str_lower ex_runtime)
          (rt_unicodedata_normalize ex_runtime) (rt_subtokens ex_runtime)
          (environ_git_version ex_runtime))"

definition ex_stats :: stats where
  "ex_stats = \<lparr>ocrqa_stats = [], unks = (\<lambda>bloomdict subtok. 0), lang_stats = (\<lambda>key. 0)\<rparr>"

definition ex_doc :: json_line where
  "ex_doc = JObject (Some (ustr ''doc-1'')) (Some (ustr ''The cat''))"

text \<open>A document none of whose words is known to either language: both candidates score 0.\<close>

definition ex_tie_doc :: json_line where
  "ex_tie_doc = JObject (Some (ustr ''doc-2'')) (Some (ustr ''Zzz qqq''))"

text \<open>A document of one subtoken, below the minimum of two.\<close>

definition ex_short_doc :: json_line where
  "ex_short_doc = JObject (Some (ustr ''doc-3'')) (Some (ustr ''cat''))"

section \<open>Rounding\<close>

lemma round_half_even_of_int: "round_half_even (of_int k) = k"
  by (simp add: round_half_even_def)

lemma round_half_even_bounds:
  "\<lfloor>x\<rfloor> \<le> round_half_even x \<and> round_half_even x \<le> \<lfloor>x\<rfloor> + 1"
  by (simp add: round_half_even_def Let_def)

lemma round_half_even_mono:
  assumes "x \<le> y"
  shows "round_half_even x \<le> round_half_even y"
proof (cases "\<lfloor>x\<rfloor> = \<lfloor>y\<rfloor>")
  case True
  then show ?thesis using assms by (auto simp: round_half_even_def Let_def)
next
  case False
  with assms have "\<lfloor>x\<rfloor> < \<lfloor>y\<rfloor>" using floor_mono [OF assms] by linarith
  then show ?thesis
    using round_half_even_bounds [of x] round_half_even_bounds [of y] by linarith
qed

lemma py_round_mono: "x \<le> y \<Longrightarrow> py_round x n \<le> py_round y n"
  unfolding py_round_def
  by (intro divide_right_mono of_int_le_iff [THEN iffD2] round_half_even_mono mult_right_mono)
    simp_all

lemma py_round_0: "py_round 0 n = 0"
  by (simp add: py_round_def round_half_even_def)

lemma py_round_1: "py_round 1 n = 1"
proof -
  have "(10::real) ^ n = of_int (10 ^ n)" by simp
  then have "round_half_even (10 ^ n) = 10 ^ n"
    using round_half_even_of_int [of "10 ^ n"] by simp
  then show ?thesis by (simp add: py_round_def)
qed

lemma py_round_unit: "0 \<le> x \<Longrightarrow> x \<le> 1 \<Longrightarrow> 0 \<le> py_round x n \<and> py_round x n \<le> 1"
  using py_round_mono [of 0 x n] py_round_mono [of x 1 n] by (simp add: py_round_0 py_round_1)

section \<open>The score calculators\<close>

text \<open>
  The loop of \<^verbatim>\<open>compute_ocrqa_slc\<close> counts the three buckets. It cannot raise when the
  dictionary index is in range, nor when every subtoken is known.
\<close>

lemma slc_loop_counts:
  "key = Inr k \<or> (\<forall>t \<in> set xs. bf t) \<Longrightarrow>
   \<exists>u'. slc_loop cost singles bf key xs (iv, sl, oov) u =
     (Inr (iv + real (length (filter (slc_iv singles bf) xs)),
           sl + cost * real (length (filter (slc_sl singles bf) xs)),
           oov + real (length (filter (\<lambda>t. \<not> bf t) xs))), u')"
proof (induction xs arbitrary: iv sl oov u)
  case Nil
  then show ?case by simp
next
  case (Cons t xs)
  have key: "key = Inr k \<or> (\<forall>t \<in> set xs. bf t)" using Cons.prems by auto
  show ?case
  proof (cases "bf t")
    case True
    note bft = this
    show ?thesis
    proof (cases "1 < length t \<or> t \<in> singles")
      case True
      from Cons.IH [OF key, of "iv + 1" sl oov u] obtain u' where
        "slc_loop cost singles bf key xs (iv + 1, sl, oov) u =
          (Inr (iv + 1 + real (length (filter (slc_iv singles bf) xs)),
                sl + cost * real (length (filter (slc_sl singles bf) xs)),
                oov + real (length (filter (\<lambda>t. \<not> bf t) xs))), u')" by blast
      moreover have "slc_iv singles bf t" "\<not> slc_sl singles bf t"
        using bft True by (simp_all add: slc_iv_def slc_sl_def)
      ultimately show ?thesis using bft True by simp
    next
      case False
      from Cons.IH [OF key, of iv "sl + cost" oov u] obtain u' where
        "slc_loop cost singles bf key xs (iv, sl + cost, oov) u =
          (Inr (iv + real (length (filter (slc_iv singles bf) xs)),
                sl + cost + cost * real (length (filter (slc_sl singles bf) xs)),
                oov + real (length (filter (\<lambda>t. \<not> bf t) xs))), u')" by blast
      moreover have "\<not> slc_iv singles bf t" "slc_sl singles bf t"
        using bft False by (simp_all add: slc_iv_def slc_sl_def)
      ultimately show ?thesis using bft False by (simp add: algebra_simps)
    qed
  next
    case False
    with Cons.prems have k: "key = Inr k" by auto
    from Cons.IH [OF key, of iv sl "oov + 1" "u(k := (u k)(t := Suc (u k t)))"] obtain u' where
      "slc_loop cost singles bf key xs (iv, sl, oov + 1) (u(k := (u k)(t := Suc (u k t)))) =
        (Inr (iv + real (length (filter (slc_iv singles bf) xs)),
              sl + cost * real (length (filter (slc_sl singles bf) xs)),
              oov + 1 + real (length (filter (\<lambda>t. \<not> bf t) xs))), u')" by blast
    moreover have "\<not> slc_iv singles bf t" "\<not> slc_sl singles bf t"
      using False by (simp_all add: slc_iv_def slc_sl_def)
    ultimately show ?thesis using False k by simp
  qed
qed

lemma compute_ocrqa_slc_value:
  assumes "i < length (bloomdicts p) \<or> (\<forall>t \<in> set xs. bf t)"
  shows "\<exists>u'. compute_ocrqa_slc p xs bf i st =
           (Inr (slc_value (single_letter_cost p) (single_chars p) bf xs), st\<lparr>unks := u'\<rparr>)"
proof -
  have "py_getitem (bloomdicts p) (int i) = Inr (bloomdicts p ! i) \<or> (\<forall>t \<in> set xs. bf t)"
    using assms by (auto simp: py_getitem_def)
  from slc_loop_counts [OF this, of "single_letter_cost p" "single_chars p" 0
      "- real (length xs) / 20" 0 "unks st"]
  obtain u' where
    "slc_loop (single_letter_cost p) (single_chars p) bf (py_getitem (bloomdicts p) (int i)) xs
       (0, - real (length xs) / 20, 0) (unks st) =
     (Inr (0 + real (length (filter (slc_iv (single_chars p) bf) xs)),
           - real (length xs) / 20
             + single_letter_cost p * real (length (filter (slc_sl (single_chars p) bf) xs)),
           0 + real (length (filter (\<lambda>t. \<not> bf t) xs))), u')" by blast
  then show ?thesis
    by (auto simp: compute_ocrqa_slc_def slc_value_def Let_def py_div_def max_def
        intro!: exI [of _ u'])
qed

lemma slc_value_unit: "0 \<le> slc_value cost singles bf xs \<and> slc_value cost singles bf xs \<le> 1"
proof -
  define iv where "iv = real (length (filter (slc_iv singles bf) xs))"
  define sl where
    "sl = max 0 (cost * real (length (filter (slc_sl singles bf) xs)) - real (length xs) / 20)"
  define oov where "oov = real (length (filter (\<lambda>t. \<not> bf t) xs))"
  have nn: "0 \<le> iv" "0 \<le> sl" "0 \<le> oov" by (simp_all add: iv_def sl_def oov_def)
  have eq: "slc_value cost singles bf xs =
      (if sl + iv + oov = 0 then 0 else py_round (iv / (sl + iv + oov)) 2)"
    unfolding slc_value_def Let_def iv_def sl_def oov_def ..
  show ?thesis
  proof (cases "sl + iv + oov = 0")
    case True
    then show ?thesis by (simp only: eq if_True) simp
  next
    case False
    with nn have pos: "0 < sl + iv + oov" by linarith
    have "0 \<le> iv / (sl + iv + oov)" using nn pos by simp
    moreover have "iv / (sl + iv + oov) \<le> 1" using nn pos by (simp add: divide_le_eq)
    ultimately have
      "0 \<le> py_round (iv / (sl + iv + oov)) 2 \<and> py_round (iv / (sl + iv + oov)) 2 \<le> 1"
      by (rule py_round_unit)
    with False show ?thesis by (simp only: eq if_False)
  qed
qed

lemma compute_ocrqa_unk_ratio_value:
  "compute_ocrqa_unk_ratio xs bf = Inr (unk_ratio_value bf xs)"
  by (simp add: compute_ocrqa_unk_ratio_def unk_ratio_value_def py_div_def)

lemma compute_ocrqa_unk_type_ratio_value:
  "compute_ocrqa_unk_type_ratio xs bf = Inr (unk_type_ratio_value bf xs)"
  by (simp add: compute_ocrqa_unk_type_ratio_def unk_type_ratio_value_def unk_ratio_value_def
      py_div_def Let_def)

lemma unk_ratio_value_unit: "0 \<le> unk_ratio_value bf xs \<and> unk_ratio_value bf xs \<le> 1"
proof (cases "xs = []")
  case True
  then show ?thesis by (simp add: unk_ratio_value_def)
next
  case False
  then have pos: "0 < real (length xs)" by simp
  have le: "real (length (filter bf xs)) \<le> real (length xs)" by simp
  have "0 \<le> real (length (filter bf xs)) / real (length xs)" by simp
  moreover have "real (length (filter bf xs)) / real (length xs) \<le> 1"
    using pos le by (simp add: divide_le_eq)
  ultimately show ?thesis using False
    by (simp add: unk_ratio_value_def py_round_unit)
qed

lemma unk_type_ratio_value_unit:
  "0 \<le> unk_type_ratio_value bf xs \<and> unk_type_ratio_value bf xs \<le> 1"
  unfolding unk_type_ratio_value_def by (rule unk_ratio_value_unit)

lemma method_score_unit: "0 \<le> method_score p bf xs m \<and> method_score p bf xs m \<le> 1"
  by (cases m) (simp_all add: method_score_def slc_value_unit unk_ratio_value_unit
      unk_type_ratio_value_unit)

text \<open>
  C1. For every subtoken sequence and every oracle, each of the three calculators
  returns a value (it does not raise) that lies between 0 and 1, and returns 0 on the
  empty sequence. For \<^verbatim>\<open>slc\<close> the value is \<open>IV / (IV + SL + OOV)\<close> rounded to two
  decimals, with \<open>SL\<close> the budget started at \<open>- count / 20\<close>, raised by
  \<^verbatim>\<open>single_letter_cost\<close> for each known single character that is not privileged, and
  floored at 0. The index \<open>i\<close> is the position of the oracle among the configured
  dictionaries, where \<^verbatim>\<open>compute_ocrqa_slc\<close> records the unknown subtokens.
\<close>

theorem scores_in_unit_interval:
  assumes "i < length (bloomdicts p)"
  shows "(\<exists>st'. compute_ocrqa_slc p subtoks_list bf i st =
             (Inr (slc_value (single_letter_cost p) (single_chars p) bf subtoks_list), st'))
       \<and> 0 \<le> slc_value (single_letter_cost p) (single_chars p) bf subtoks_list
       \<and> slc_value (single_letter_cost p) (single_chars p) bf subtoks_list \<le> 1
       \<and> (\<exists>v. compute_ocrqa_unk_ratio subtoks_list bf = Inr v \<and> 0 \<le> v \<and> v \<le> 1)
       \<and> (\<exists>v. compute_ocrqa_unk_type_ratio subtoks_list bf = Inr v \<and> 0 \<le> v \<and> v \<le> 1)
       \<and> compute_ocrqa_slc p [] bf i st = (Inr 0, st)
       \<and> compute_ocrqa_unk_ratio [] bf = Inr 0
       \<and> compute_ocrqa_unk_type_ratio [] bf = Inr 0"
proof -
  from compute_ocrqa_slc_value [of i p subtoks_list bf st] assms
  have a: "\<exists>st'. compute_ocrqa_slc p subtoks_list bf i st =
             (Inr (slc_value (single_letter_cost p) (single_chars p) bf subtoks_list), st')"
    by blast
  have b: "compute_ocrqa_slc p [] bf i st = (Inr 0, st)"
    by (simp add: compute_ocrqa_slc_def)
  have c: "compute_ocrqa_unk_ratio [] bf = Inr 0"
    by (simp add: compute_ocrqa_unk_ratio_def)
  have d: "compute_ocrqa_unk_type_ratio [] bf = Inr 0"
    by (simp add: compute_ocrqa_unk_type_ratio_def)
  have e: "\<exists>v. compute_ocrqa_unk_ratio subtoks_list bf = Inr v \<and> 0 \<le> v \<and> v \<le> 1"
    using compute_ocrqa_unk_ratio_value unk_ratio_value_unit by blast
  have f: "\<exists>v. compute_ocrqa_unk_type_ratio subtoks_list bf = Inr v \<and> 0 \<le> v \<and> v \<le> 1"
    using compute_ocrqa_unk_type_ratio_value unk_type_ratio_value_unit by blast
  from a b c d e f slc_value_unit show ?thesis by blast
qed

theorem scores_in_unit_interval_witness:
  "(0::nat) < length (bloomdicts ex_processor)
   \<and> (\<exists>st'. compute_ocrqa_slc ex_processor [ustr ''the'', ustr ''x''] (oracle_of [ustr ''the''])
              0 ex_stats =
            (Inr (slc_value (single_letter_cost ex_processor) (single_chars ex_processor)
                    (oracle_of [ustr ''the'']) [ustr ''the'', ustr ''x'']), st'))
   \<and> (\<exists>v. compute_ocrqa_unk_ratio [ustr ''the'', ustr ''x''] (oracle_of [ustr ''the'']) = Inr v
          \<and> 0 \<le> v \<and> v \<le> 1)
   \<and> compute_ocrqa_slc ex_processor [] (oracle_of [ustr ''the'']) 0 ex_stats = (Inr 0, ex_stats)"
proof -
  have len: "(0::nat) < length (bloomdicts ex_processor)"
    by (simp add: ex_processor_def ex_options_def options.defs)
  from scores_in_unit_interval [OF len, of "[ustr ''the'', ustr ''x'']" "oracle_of [ustr ''the'']"
      ex_stats]
  show ?thesis using len by blast
qed

lemma filter_unknown_tail:
  assumes "\<forall>y \<in> set ys. \<not> bf y"
  shows "filter (slc_iv singles bf) (xs @ ys) = filter (slc_iv singles bf) xs"
    and "filter (slc_sl singles bf) (xs @ ys) = filter (slc_sl singles bf) xs"
    and "filter (\<lambda>t. \<not> bf t) (xs @ ys) = filter (\<lambda>t. \<not> bf t) xs @ ys"
    and "filter bf (xs @ ys) = filter bf xs"
  using assms by (simp_all add: slc_iv_def slc_sl_def filter_empty_conv filter_id_conv)

lemma slc_value_append_unknown:
  assumes unk: "\<forall>y \<in> set ys. \<not> bf y"
  shows "slc_value cost singles bf (xs @ ys) \<le> slc_value cost singles bf xs"
proof -
  define iv where "iv = real (length (filter (slc_iv singles bf) xs))"
  define c where "c = cost * real (length (filter (slc_sl singles bf) xs))"
  define oov where "oov = real (length (filter (\<lambda>t. \<not> bf t) xs))"
  define n where "n = real (length xs)"
  define m where "m = real (length ys)"
  define sl where "sl = max 0 (c - n / 20)"
  define sl' where "sl' = max 0 (c - (n + m) / 20)"
  have nn: "0 \<le> iv" "0 \<le> oov" "0 \<le> m" "0 \<le> sl" "0 \<le> sl'"
    by (simp_all add: iv_def oov_def m_def sl_def sl'_def)
  have eq1: "slc_value cost singles bf xs =
      (if sl + iv + oov = 0 then 0 else py_round (iv / (sl + iv + oov)) 2)"
    unfolding slc_value_def Let_def iv_def sl_def oov_def c_def n_def ..
  have eq2: "slc_value cost singles bf (xs @ ys) =
      (if sl' + iv + (oov + m) = 0 then 0 else py_round (iv / (sl' + iv + (oov + m))) 2)"
    unfolding slc_value_def Let_def filter_unknown_tail [OF unk]
    by (simp add: iv_def sl'_def oov_def c_def n_def m_def)
  have split: "(n + m) / 20 = n / 20 + m / 20" by (simp add: add_divide_distrib)
  have grow: "sl + iv + oov \<le> sl' + iv + (oov + m)"
    using nn(3) unfolding sl_def sl'_def split by linarith
  show ?thesis
  proof (cases "sl + iv + oov = 0")
    case True
    with nn have "iv = 0" by linarith
    then show ?thesis by (simp add: eq1 eq2 True py_round_0)
  next
    case False
    with nn have pos: "0 < sl + iv + oov" by linarith
    with grow have pos': "0 < sl' + iv + (oov + m)" by linarith
    have "iv / (sl' + iv + (oov + m)) \<le> iv / (sl + iv + oov)"
      using nn pos grow by (intro divide_left_mono) (simp_all add: pos pos')
    then have "py_round (iv / (sl' + iv + (oov + m))) 2 \<le> py_round (iv / (sl + iv + oov)) 2"
      by (rule py_round_mono)
    with False pos' show ?thesis by (simp add: eq1 eq2)
  qed
qed

lemma slc_value_none_known:
  assumes "\<forall>t \<in> set xs. \<not> bf t"
  shows "slc_value cost singles bf xs = 0"
proof -
  have "filter (slc_iv singles bf) xs = []"
    using assms by (simp add: filter_empty_conv slc_iv_def)
  then show ?thesis by (simp add: slc_value_def Let_def py_round_0)
qed

lemma unk_ratio_value_none_known:
  assumes "\<forall>t \<in> set xs. \<not> bf t"
  shows "unk_ratio_value bf xs = 0"
proof -
  have "filter bf xs = []" using assms by (simp add: filter_empty_conv)
  then show ?thesis by (simp add: unk_ratio_value_def py_round_0)
qed

lemma unk_type_ratio_value_none_known:
  assumes "\<forall>t \<in> set xs. \<not> bf t"
  shows "unk_type_ratio_value bf xs = 0"
  unfolding unk_type_ratio_value_def using assms by (intro unk_ratio_value_none_known) simp

text \<open>
  C5. Appending subtokens that the oracle does not know, the other subtokens unchanged,
  never increases the \<^verbatim>\<open>slc\<close> score (as returned, after its rounding to two decimals).
\<close>

theorem slc_monotone_in_unknown:
  assumes "i < length (bloomdicts p)" and "\<forall>y \<in> set ys. \<not> bf y"
  shows "\<exists>v w st1 st2.
           compute_ocrqa_slc p subtoks_list bf i st = (Inr v, st1)
         \<and> compute_ocrqa_slc p (subtoks_list @ ys) bf i st' = (Inr w, st2)
         \<and> w \<le> v"
proof -
  from compute_ocrqa_slc_value [of i p subtoks_list bf st] assms(1) obtain u1 where
    a: "compute_ocrqa_slc p subtoks_list bf i st =
        (Inr (slc_value (single_letter_cost p) (single_chars p) bf subtoks_list), st\<lparr>unks := u1\<rparr>)"
    by blast
  from compute_ocrqa_slc_value [of i p "subtoks_list @ ys" bf st'] assms(1) obtain u2 where
    b: "compute_ocrqa_slc p (subtoks_list @ ys) bf i st' =
        (Inr (slc_value (single_letter_cost p) (single_chars p) bf (subtoks_list @ ys)),
         st'\<lparr>unks := u2\<rparr>)"
    by blast
  from a b slc_value_append_unknown [OF assms(2)] show ?thesis by blast
qed

theorem slc_monotone_in_unknown_witness:
  "(0::nat) < length (bloomdicts ex_processor)
   \<and> \<not> oracle_of [ustr ''the''] (ustr ''xyz'')
   \<and> (\<exists>v w st1 st2.
           compute_ocrqa_slc ex_processor [ustr ''the''] (oracle_of [ustr ''the'']) 0 ex_stats
             = (Inr v, st1)
         \<and> compute_ocrqa_slc ex_processor ([ustr ''the''] @ [ustr ''xyz'']) (oracle_of [ustr ''the''])
             0 ex_stats = (Inr w, st2)
         \<and> w \<le> v)"
proof -
  have len: "(0::nat) < length (bloomdicts ex_processor)"
    by (simp add: ex_processor_def ex_options_def options.defs)
  have unk: "\<forall>y \<in> set [ustr ''xyz'']. \<not> oracle_of [ustr ''the''] y"
    by (simp add: oracle_of_def ustr_def)
  from slc_monotone_in_unknown [OF len unk, of "[ustr ''the'']" ex_stats ex_stats]
  show ?thesis using len unk by simp
qed

text \<open>
  C8, as amended. Each calculator returns 0 on the empty sequence and, more generally, on
  every sequence none of whose subtokens is found in the oracle: a score of 0 does not
  tell the empty input from a non-empty one.
\<close>

theorem zero_score_when_nothing_known:
  assumes "i < length (bloomdicts p)" and "\<forall>t \<in> set subtoks_list. \<not> bf t"
  shows "(\<exists>st'. compute_ocrqa_slc p subtoks_list bf i st = (Inr 0, st'))
       \<and> compute_ocrqa_unk_ratio subtoks_list bf = Inr 0
       \<and> compute_ocrqa_unk_type_ratio subtoks_list bf = Inr 0"
proof -
  from compute_ocrqa_slc_value [of i p subtoks_list bf st] assms(1)
  have "\<exists>st'. compute_ocrqa_slc p subtoks_list bf i st = (Inr 0, st')"
    unfolding slc_value_none_known [OF assms(2)] by blast
  then show ?thesis
    by (simp add: compute_ocrqa_unk_ratio_value compute_ocrqa_unk_type_ratio_value
        unk_ratio_value_none_known [OF assms(2)] unk_type_ratio_value_none_known [OF assms(2)])
qed

theorem zero_score_when_nothing_known_witness:
  "(0::nat) < length (bloomdicts ex_processor)
   \<and> \<not> oracle_of [] (ustr ''xyz'')
   \<and> (\<exists>st'. compute_ocrqa_slc ex_processor [ustr ''xyz''] (oracle_of []) 0 ex_stats = (Inr 0, st'))
   \<and> compute_ocrqa_unk_ratio [ustr ''xyz''] (oracle_of []) = Inr 0
   \<and> compute_ocrqa_unk_type_ratio [ustr ''xyz''] (oracle_of []) = Inr 0"
proof -
  have len: "(0::nat) < length (bloomdicts ex_processor)"
    by (simp add: ex_processor_def ex_options_def options.defs)
  have unk: "\<forall>t \<in> set [ustr ''xyz'']. \<not> oracle_of [] t"
    by (simp add: oracle_of_def)
  from zero_score_when_nothing_known [OF len unk, of ex_stats]
  show ?thesis using len unk by simp
qed

text \<open>
  C8 as stated fails: on the one-element sequence \<open>xyz\<close> and an oracle that knows
  nothing, all three calculators return 0.
\<close>

theorem zero_score_on_nonempty_input:
  "compute_ocrqa_unk_ratio [ustr ''xyz''] (oracle_of []) = Inr 0
   \<and> compute_ocrqa_unk_type_ratio [ustr ''xyz''] (oracle_of []) = Inr 0
   \<and> fst (compute_ocrqa_slc ex_processor [ustr ''xyz''] (oracle_of []) 0 ex_stats) = Inr 0
   \<and> [ustr ''xyz''] \<noteq> []"
  by (simp add: compute_ocrqa_unk_ratio_def compute_ocrqa_unk_type_ratio_def
      compute_ocrqa_slc_def oracle_of_def py_div_def py_round_0 py_getitem_def
      ex_processor_def ex_options_def options.defs ex_stats_def)

section \<open>\<^verbatim>\<open>compute_results\<close> and \<^verbatim>\<open>process_line\<close> on a well-formed processor\<close>

lemma slc_block_ok:
  assumes "i < length (bloomdicts p)"
  shows "\<exists>u'. slc_block p xs bf i kbm n (r, bv, bi) st =
     (Inr (if Slc \<in> set (methods p) then r\<lparr>ocrqa_slc := Some (method_score p bf xs Slc)\<rparr> else r,
           if Slc \<in> set (methods p) \<and> kbm = Some Slc \<and> bv < method_score p bf xs Slc
           then method_score p bf xs Slc else bv,
           if Slc \<in> set (methods p) \<and> kbm = Some Slc \<and> bv < method_score p bf xs Slc
           then int n else bi),
      st\<lparr>unks := u',
         ocrqa_stats := ocrqa_stats st @
           (if Slc \<in> set (methods p) then [method_score p bf xs Slc] else [])\<rparr>)"
proof (cases "Slc \<in> set (methods p)")
  case False
  then show ?thesis by (auto simp: slc_block_def intro!: exI [of _ "unks st"])
next
  case True
  from compute_ocrqa_slc_value [of i p xs bf st] assms obtain u' where
    "compute_ocrqa_slc p xs bf i st =
       (Inr (slc_value (single_letter_cost p) (single_chars p) bf xs), st\<lparr>unks := u'\<rparr>)"
    by blast
  with True show ?thesis
    by (auto simp: slc_block_def method_score_def Let_def intro!: exI [of _ u'])
qed

lemma unk_ratio_block_ok:
  "unk_ratio_block p xs bf kbm n (r, bv, bi) =
     Inr (if UnkRatio \<in> set (methods p)
          then r\<lparr>ocrqa_unk_ratio := Some (method_score p bf xs UnkRatio)\<rparr> else r,
          if UnkRatio \<in> set (methods p) \<and> kbm = Some UnkRatio \<and> bv < method_score p bf xs UnkRatio
          then method_score p bf xs UnkRatio else bv,
          if UnkRatio \<in> set (methods p) \<and> kbm = Some UnkRatio \<and> bv < method_score p bf xs UnkRatio
          then int n else bi)"
  by (simp add: unk_ratio_block_def compute_ocrqa_unk_ratio_value method_score_def Let_def)

lemma unk_type_ratio_block_ok:
  "unk_type_ratio_block p xs bf kbm n (r, bv, bi) =
     Inr (if UnkTypeRatio \<in> set (methods p)
          then r\<lparr>ocrqa_unk_type_ratio := Some (method_score p bf xs UnkTypeRatio)\<rparr> else r,
          if UnkTypeRatio \<in> set (methods p) \<and> kbm = Some UnkTypeRatio
             \<and> bv < method_score p bf xs UnkTypeRatio
          then method_score p bf xs UnkTypeRatio else bv,
          if UnkTypeRatio \<in> set (methods p) \<and> kbm = Some UnkTypeRatio
             \<and> bv < method_score p bf xs UnkTypeRatio
          then int n else bi)"
  by (simp add: unk_type_ratio_block_def compute_ocrqa_unk_type_ratio_value method_score_def Let_def)

lemma compute_results_ok:
  assumes i: "lang_index < length (bloomdicts p)" and m: "methods p \<noteq> []"
    and k: "kbm = None \<or> kbm = Some (hd (methods p))"
    and xs: "xs = si_subtokens info"
  shows "\<exists>u'. compute_results p info xs bf lang lang_index kbm bv bi results st =
     (Inr (expected_result p info bf lang lang_index,
           next_best kbm (expected_result p info bf lang lang_index) (length results) (bv, bi)),
      st\<lparr>unks := u',
         ocrqa_stats := ocrqa_stats st @
           (if Slc \<in> set (methods p) then [method_score p bf xs Slc] else [])\<rparr>)"
proof -
  obtain m0 ms where ms: "methods p = m0 # ms" using m by (cases "methods p") auto
  have g: "py_getitem (bloomdicts p) (int lang_index) = Inr (bloomdicts p ! lang_index)"
    using i by (simp add: py_getitem_def)
  have g0: "py_getitem (methods p) 0 = Inr m0" by (simp add: py_getitem_def ms)
  have m0: "m0 \<in> set (methods p)" by (simp add: ms)
  let ?r0 = "\<lparr>ci_id = si_id info, lg = lang, ocrqa = None, bloom = bloomdicts p ! lang_index,
      r_subtokens = length xs, r_timestamp = timestamp p,
      r_git_version = self_git_version p,
      subtoken_char_ratio = compute_subtoken_char_ratio xs (si_char_length info),
      ocrqa_slc = None, ocrqa_unk_ratio = None, ocrqa_unk_type_ratio = None,
      unk_freq = None\<rparr>"
  from slc_block_ok [OF i, of xs bf kbm "length results" ?r0 bv bi st] obtain u' where
    sb: "slc_block p xs bf lang_index kbm (length results) (?r0, bv, bi) st =
     (Inr (if Slc \<in> set (methods p) then ?r0\<lparr>ocrqa_slc := Some (method_score p bf xs Slc)\<rparr> else ?r0,
           if Slc \<in> set (methods p) \<and> kbm = Some Slc \<and> bv < method_score p bf xs Slc
           then method_score p bf xs Slc else bv,
           if Slc \<in> set (methods p) \<and> kbm = Some Slc \<and> bv < method_score p bf xs Slc
           then int (length results) else bi),
      st\<lparr>unks := u',
         ocrqa_stats := ocrqa_stats st @
           (if Slc \<in> set (methods p) then [method_score p bf xs Slc] else [])\<rparr>)"
    by blast
  have "compute_results p info xs bf lang lang_index kbm bv bi results st =
     (Inr (expected_result p info bf lang lang_index,
           next_best kbm (expected_result p info bf lang lang_index) (length results) (bv, bi)),
      st\<lparr>unks := u',
         ocrqa_stats := ocrqa_stats st @
           (if Slc \<in> set (methods p) then [method_score p bf xs Slc] else [])\<rparr>)"
    using k m0 unfolding compute_results_def g Let_def sum.case sb prod.case
      unk_ratio_block_ok unk_type_ratio_block_ok g0
    by (cases m0) (auto simp: store_ocrqa_def expected_result_def next_best_def ms xs)
  then show ?thesis by blast
qed

lemma get_subtokens_parseable:
  "line \<noteq> Unparseable \<Longrightarrow> \<exists>info. get_subtokens p line l = Inr info"
  by (cases line) (auto simp: get_subtokens_def json_loads_def Let_def split: option.splits)

lemma lang_stats_count_lang [simp]:
  "lang_stats (count_lang k st) l = (if l = k then Suc (lang_stats st l) else lang_stats st l)"
  by (simp add: count_lang_def)

lemma gather_all_languages_ok:
  assumes "\<forall>(i, bf) \<in> set ibs. i < length (languages p) \<and> i < length (bloomdicts p)"
    and "methods p \<noteq> []" and "kbm = None \<or> kbm = Some (hd (methods p))"
    and "line \<noteq> Unparseable"
  shows "\<exists>st'. gather_all_languages p line kbm ibs (results, bv, bi) st =
           (Inr (results @ expected_candidates p line ibs,
                 track_best kbm (expected_candidates p line ibs) (length results) (bv, bi)), st')
         \<and> (\<forall>l. lang_stats st' l =
                lang_stats st l + length (filter (\<lambda>r. lg r = l) (expected_candidates p line ibs)))"
  using assms(1)
proof (induction ibs arbitrary: results bv bi st)
  case Nil
  then show ?case by simp
next
  case (Cons ib ibs)
  obtain i bf where ib: "ib = (i, bf)" by (cases ib)
  from Cons.prems ib have i: "i < length (languages p)" "i < length (bloomdicts p)"
    and rest: "\<forall>(i, bf) \<in> set ibs. i < length (languages p) \<and> i < length (bloomdicts p)"
    by auto
  have gl: "py_getitem (languages p) (int i) = Inr (languages p ! i)"
    using i by (simp add: py_getitem_def)
  from get_subtokens_parseable [OF assms(4)] obtain info where
    info: "get_subtokens p line (Some (languages p ! i)) = Inr info" by blast
  show ?case
  proof (cases "int (length (si_subtokens info)) < min_subtokens p")
    case True
    from Cons.IH [OF rest, of results bv bi st] True show ?thesis
      by (simp add: ib gl info)
  next
    case False
    let ?r = "expected_result p info bf (languages p ! i) i"
    from compute_results_ok [OF i(2) assms(2) assms(3) refl,
        of info bf "languages p ! i" bv bi results st]
    obtain u' where cr: "compute_results p info (si_subtokens info) bf (languages p ! i) i kbm bv bi
        results st =
      (Inr (?r, next_best kbm ?r (length results) (bv, bi)),
       st\<lparr>unks := u', ocrqa_stats := ocrqa_stats st @
           (if Slc \<in> set (methods p) then [method_score p bf (si_subtokens info) Slc] else [])\<rparr>)"
      by blast
    obtain bv1 bi1 where nb: "next_best kbm ?r (length results) (bv, bi) = (bv1, bi1)"
      by (cases "next_best kbm ?r (length results) (bv, bi)")
    let ?st1 = "count_lang (languages p ! i)
         (st\<lparr>unks := u', ocrqa_stats := ocrqa_stats st @
           (if Slc \<in> set (methods p) then [method_score p bf (si_subtokens info) Slc] else [])\<rparr>)"
    from Cons.IH [OF rest, of "results @ [?r]" bv1 bi1 ?st1] obtain st' where
      ih: "gather_all_languages p line kbm ibs (results @ [?r], bv1, bi1) ?st1 =
           (Inr ((results @ [?r]) @ expected_candidates p line ibs,
                 track_best kbm (expected_candidates p line ibs) (length (results @ [?r]))
                   (bv1, bi1)), st')"
      and ls: "\<forall>l. lang_stats st' l =
                lang_stats ?st1 l + length (filter (\<lambda>r. lg r = l) (expected_candidates p line ibs))"
      by blast
    have lg: "lg ?r = languages p ! i" by (simp add: expected_result_def)
    have "gather_all_languages p line kbm (ib # ibs) (results, bv, bi) st =
           (Inr (results @ expected_candidates p line (ib # ibs),
                 track_best kbm (expected_candidates p line (ib # ibs)) (length results) (bv, bi)),
            st')"
      using False ih by (simp add: ib gl info cr nb)
    moreover have "\<forall>l. lang_stats st' l =
        lang_stats st l + length (filter (\<lambda>r. lg r = l) (expected_candidates p line (ib # ibs)))"
      using False ls by (simp add: ib info lg)
    ultimately show ?thesis by blast
  qed
qed

lemma expected_candidates_lg:
  "subseq (map lg (expected_candidates p line ibs)) (map (\<lambda>(i, bf). languages p ! i) ibs)"
proof (induction ibs)
  case Nil
  then show ?case by simp
next
  case (Cons ib ibs)
  obtain i bf where ib: "ib = (i, bf)" by (cases ib)
  show ?case using Cons.IH
    by (auto simp: ib expected_result_def split: sum.splits)
qed

lemma expected_candidates_ocrqa:
  "r \<in> set (expected_candidates p line ibs) \<Longrightarrow> \<exists>v. ocrqa r = Some v \<and> 0 \<le> v \<and> v \<le> 1"
proof (induction ibs)
  case Nil
  then show ?case by simp
next
  case (Cons ib ibs)
  obtain i bf where ib: "ib = (i, bf)" by (cases ib)
  from Cons show ?case
    by (auto simp: ib expected_result_def method_score_unit split: sum.splits if_splits)
qed

lemma map_enumerate_nth:
  "map (\<lambda>(i, x). ys ! i) (enumerate n xs) = take (length xs) (drop n ys)"
  if "n + length xs \<le> length ys"
  using that
proof (induction xs arbitrary: n)
  case Nil
  then show ?case by simp
next
  case (Cons x xs)
  then have "n < length ys" by simp
  then have "drop n ys = ys ! n # drop (Suc n) ys" by (simp add: Cons_nth_drop_Suc)
  with Cons show ?case by simp
qed

lemma best_tracked_step:
  assumes bt: "best_tracked pre b" and r: "ocrqa r = Some v" and v: "0 \<le> v"
  shows "best_tracked (pre @ [r]) (next_best (Some m) r (length pre) b)"
proof (cases "pre = []")
  case True
  with bt have "b = (- 1, - 1)" by (auto simp: best_tracked_def)
  with True r v show ?thesis by (simp add: best_tracked_def next_best_def)
next
  case False
  with bt obtain k where k: "k < length pre" "snd b = int k" "ocrqa (pre ! k) = Some (fst b)"
    and le: "\<forall>j<length pre. \<exists>w. ocrqa (pre ! j) = Some w \<and> w \<le> fst b"
    and lt: "\<forall>j<k. \<exists>w. ocrqa (pre ! j) = Some w \<and> w < fst b"
    by (auto simp: best_tracked_def)
  show ?thesis
  proof (cases "fst b < v")
    case True
    then have nb: "next_best (Some m) r (length pre) b = (v, int (length pre))"
      by (simp add: next_best_def r)
    have "\<forall>j<length (pre @ [r]). \<exists>w. ocrqa ((pre @ [r]) ! j) = Some w \<and> w \<le> v"
    proof (intro allI impI)
      fix j assume "j < length (pre @ [r])"
      then consider "j < length pre" | "j = length pre" by fastforce
      then show "\<exists>w. ocrqa ((pre @ [r]) ! j) = Some w \<and> w \<le> v"
      proof cases
        case 1
        with le obtain w where "ocrqa (pre ! j) = Some w" "w \<le> fst b" by blast
        with 1 True show ?thesis by (auto simp: nth_append)
      next
        case 2
        then show ?thesis by (simp add: r)
      qed
    qed
    moreover have "\<forall>j<length pre. \<exists>w. ocrqa ((pre @ [r]) ! j) = Some w \<and> w < v"
    proof (intro allI impI)
      fix j assume j: "j < length pre"
      with le obtain w where "ocrqa (pre ! j) = Some w" "w \<le> fst b" by blast
      with j True show "\<exists>w. ocrqa ((pre @ [r]) ! j) = Some w \<and> w < v"
        by (auto simp: nth_append)
    qed
    ultimately show ?thesis
      unfolding best_tracked_def nb
      by (intro disjI2 exI [of _ "length pre"]) (simp add: r)
  next
    case False
    then have nb: "next_best (Some m) r (length pre) b = b"
      by (simp add: next_best_def r)
    have "\<forall>j<length (pre @ [r]). \<exists>w. ocrqa ((pre @ [r]) ! j) = Some w \<and> w \<le> fst b"
    proof (intro allI impI)
      fix j assume "j < length (pre @ [r])"
      then consider "j < length pre" | "j = length pre" by fastforce
      then show "\<exists>w. ocrqa ((pre @ [r]) ! j) = Some w \<and> w \<le> fst b"
      proof cases
        case 1
        with le show ?thesis by (auto simp: nth_append)
      next
        case 2
        with False show ?thesis by (simp add: r)
      qed
    qed
    moreover have "\<forall>j<k. \<exists>w. ocrqa ((pre @ [r]) ! j) = Some w \<and> w < fst b"
      using lt k(1) by (auto simp: nth_append)
    moreover have "ocrqa ((pre @ [r]) ! k) = Some (fst b)"
      using k by (simp add: nth_append)
    ultimately show ?thesis
      unfolding best_tracked_def nb using k(1,2)
      by (intro disjI2 exI [of _ k]) simp
  qed
qed

lemma track_best_tracked:
  assumes "best_tracked pre b" and "\<forall>r \<in> set rs. \<exists>v. ocrqa r = Some v \<and> 0 \<le> v"
  shows "best_tracked (pre @ rs) (track_best (Some m) rs (length pre) b)"
  using assms
proof (induction rs arbitrary: pre b)
  case Nil
  then show ?case by simp
next
  case (Cons r rs)
  from Cons.prems(2) obtain v where v: "ocrqa r = Some v" "0 \<le> v" by auto
  have "best_tracked (pre @ [r]) (next_best (Some m) r (length pre) b)"
    using Cons.prems(1) v by (rule best_tracked_step)
  from Cons.IH [OF this] Cons.prems(2) show ?case by simp
qed

lemma track_best_None: "track_best None rs n b = b"
  by (induction rs arbitrary: n) (simp_all add: next_best_def)

lemma list_index_ok:
  "x \<in> set xs \<Longrightarrow> \<exists>k. list_index xs x = Inr k \<and> k < length xs \<and> xs ! k = x"
  by (induction xs) auto

lemma keep_best_method_of_ok:
  "methods p \<noteq> [] \<Longrightarrow> keep_best_method_of p = Inr (method_kept p)"
  by (cases "methods p")
    (simp_all add: keep_best_method_of_def method_kept_def best_selection_active_def py_getitem_def)

lemma method_kept_cases: "method_kept p = None \<or> method_kept p = Some (hd (methods p))"
  by (simp add: method_kept_def)

lemma expected_result_ocrqa:
  "\<exists>v. ocrqa (expected_result p info bf lang i) = Some v \<and> 0 \<le> v \<and> v \<le> 1"
  by (simp add: expected_result_def method_score_unit)

lemma gather_labelled_ok:
  assumes wf: "well_formed p" and line: "line \<noteq> Unparseable"
  shows "\<exists>flow st'. gather_labelled p line (method_kept p) lang st = (Inr flow, st')
     \<and> flow_ok p flow
     \<and> (\<forall>l. \<not> prefix (ustr ''missing-dict-for-'') l \<longrightarrow>
          lang_stats st' l = lang_stats st l + length (filter (\<lambda>r. lg r = l) (gathered flow)))"
proof (cases "lang \<in> set (languages p)")
  case False
  then show ?thesis
    by (auto simp: gather_labelled_def flow_ok_def gathered_def)
next
  case True
  from get_subtokens_parseable [OF line] obtain info where
    info: "get_subtokens p line (Some lang) = Inr info" by blast
  show ?thesis
  proof (cases "int (length (si_subtokens info)) < min_subtokens p")
    case short: True
    with True info show ?thesis
      by (simp add: gather_labelled_def flow_ok_def gathered_def)
  next
    case long: False
    from list_index_ok [OF True] obtain k where
      k: "list_index (languages p) lang = Inr k" "k < length (languages p)" "languages p ! k = lang"
      by blast
    from wf k(2) have kb: "k < length (bloomdicts p)" "k < length (bloom_filters p)"
      and m: "methods p \<noteq> []"
      by (simp_all add: well_formed_def)
    have gb: "py_getitem (bloom_filters p) (int k) = Inr (bloom_filters p ! k)"
      using kb by (simp add: py_getitem_def)
    let ?r = "expected_result p info (bloom_filters p ! k) lang k"
    from compute_results_ok [OF kb(1) m method_kept_cases refl,
        of info "bloom_filters p ! k" lang "- 1" "- 1" "[]" st]
    obtain u' where cr: "compute_results p info (si_subtokens info) (bloom_filters p ! k) lang k
        (method_kept p) (- 1) (- 1) [] st =
      (Inr (?r, next_best (method_kept p) ?r 0 (- 1, - 1)),
       st\<lparr>unks := u', ocrqa_stats := ocrqa_stats st @
           (if Slc \<in> set (methods p)
            then [method_score p (bloom_filters p ! k) (si_subtokens info) Slc] else [])\<rparr>)"
      by auto
    obtain bv1 bi1 where nb: "next_best (method_kept p) ?r 0 (- 1, - 1) = (bv1, bi1)"
      by (cases "next_best (method_kept p) ?r 0 (- 1, - 1)")
    have lg: "lg ?r = lang" by (simp add: expected_result_def)
    have "flow_ok p (Gathered [?r] bv1 bi1)"
      using expected_result_ocrqa [of p info "bloom_filters p ! k" lang k] True
      by (simp add: flow_ok_def nb lg subseq_singleton_left)
    then show ?thesis
      using True long info k(1) gb cr nb lg
      by (simp add: gather_labelled_def gathered_def)
  qed
qed

lemma gather_unlabelled_ok:
  assumes wf: "well_formed p" and line: "line \<noteq> Unparseable"
  shows "\<exists>rs bv bi st'.
       gather_all_languages p line (method_kept p) (enumerate 0 (bloom_filters p)) ([], - 1, - 1) st
         = (Inr (rs, bv, bi), st')
     \<and> flow_ok p (Gathered rs bv bi)
     \<and> (\<forall>l. lang_stats st' l = lang_stats st l + length (filter (\<lambda>r. lg r = l) rs))"
proof -
  let ?ibs = "enumerate 0 (bloom_filters p)"
  from wf have len: "length (bloomdicts p) = length (languages p)"
      "length (bloom_filters p) = length (languages p)" and m: "methods p \<noteq> []"
    by (simp_all add: well_formed_def)
  have rng: "\<forall>(i, bf) \<in> set ?ibs. i < length (languages p) \<and> i < length (bloomdicts p)"
    using len by (auto simp: in_set_enumerate_eq)
  from gather_all_languages_ok [OF rng m method_kept_cases line, of "[]" "- 1" "- 1" st]
  obtain st' where
    g: "gather_all_languages p line (method_kept p) ?ibs ([], - 1, - 1) st =
         (Inr ([] @ expected_candidates p line ?ibs,
               track_best (method_kept p) (expected_candidates p line ?ibs) (length ([]::result list))
                 (- 1, - 1)), st')"
    and ls: "\<forall>l. lang_stats st' l =
         lang_stats st l + length (filter (\<lambda>r. lg r = l) (expected_candidates p line ?ibs))"
    by blast
  obtain bv bi where tb:
    "track_best (method_kept p) (expected_candidates p line ?ibs) 0 (- 1, - 1) = (bv, bi)"
    by (cases "track_best (method_kept p) (expected_candidates p line ?ibs) 0 (- 1, - 1)")
  have "map (\<lambda>(i, bf). languages p ! i) ?ibs = languages p"
    using map_enumerate_nth [of 0 "bloom_filters p" "languages p"] len by simp
  with expected_candidates_lg [of p line ?ibs]
  have sub: "subseq (map lg (expected_candidates p line ?ibs)) (languages p)" by simp
  have "flow_ok p (Gathered (expected_candidates p line ?ibs) bv bi)"
    using sub expected_candidates_ocrqa [of _ p line ?ibs] by (simp add: flow_ok_def tb)
  with g ls tb show ?thesis by simp
qed

lemma gather_results_ok:
  assumes wf: "well_formed p" and line: "line \<noteq> Unparseable"
  shows "\<exists>flow st'. gather_results p line st = (Inr flow, st')
     \<and> flow_ok p flow
     \<and> (\<forall>l. \<not> prefix (ustr ''missing-dict-for-'') l \<longrightarrow>
          lang_stats st' l = lang_stats st l + length (filter (\<lambda>r. lg r = l) (gathered flow)))"
proof -
  from line obtain docid ft where l: "line = JObject docid ft" by (cases line) auto
  from wf have m: "methods p \<noteq> []" by (simp add: well_formed_def)
  let ?lang = "case lang_ident_data p of None \<Rightarrow> None | Some d \<Rightarrow> d docid"
  show ?thesis
  proof (cases "case ?lang of None \<Rightarrow> None | Some l \<Rightarrow> if l = [] then None else Some l")
    case None
    from gather_unlabelled_ok [OF wf line, of st] obtain rs bv bi st' where
      "gather_all_languages p line (method_kept p) (enumerate 0 (bloom_filters p)) ([], - 1, - 1) st
         = (Inr (rs, bv, bi), st')"
      "flow_ok p (Gathered rs bv bi)"
      "\<forall>l. lang_stats st' l = lang_stats st l + length (filter (\<lambda>r. lg r = l) rs)"
      by blast
    with None show ?thesis
      unfolding gather_results_def l json_loads_def keep_best_method_of_ok [OF m]
      by (simp add: Let_def gathered_def l)
  next
    case (Some lang)
    from gather_labelled_ok [OF wf line, of lang st] Some show ?thesis
      unfolding gather_results_def l json_loads_def keep_best_method_of_ok [OF m]
      by (simp add: Let_def l)
  qed
qed

lemma lang_stats_append_stat [simp]: "lang_stats (append_stat r st) = lang_stats st"
  by (simp add: append_stat_def split: option.splits)

lemma lang_stats_foldl_append_stat [simp]:
  "lang_stats (foldl (\<lambda>s r. append_stat r s) st rs) = lang_stats st"
  by (induction rs arbitrary: st) simp_all

lemma candidates_gathered:
  "gather_results p line st = (Inr flow, st') \<Longrightarrow> candidates p line st = gathered flow"
  by (cases flow) (simp_all add: candidates_def gathered_def)

lemma select_results_best:
  assumes act: "best_selection_active p" and ok: "flow_ok p (Gathered rs bv bi)" and ne: "rs \<noteq> []"
  shows "\<exists>k. earliest_maximum rs k
           \<and> select_results p rs bi st = (Inr [rs ! k], append_stat (rs ! k) st)"
proof -
  from ok act have tb: "(bv, bi) = track_best (Some (hd (methods p))) rs 0 (- 1, - 1)"
    and pos: "\<forall>r \<in> set rs. \<exists>v. ocrqa r = Some v \<and> 0 \<le> v"
    by (auto simp: flow_ok_def method_kept_def)
  have "best_tracked ([] @ rs) (track_best (Some (hd (methods p))) rs (length ([]::result list))
      (- 1, - 1))"
    by (rule track_best_tracked) (simp_all add: best_tracked_def pos)
  with tb [symmetric] have "best_tracked rs (bv, bi)" by simp
  with ne obtain k where k: "k < length rs" "bi = int k" "ocrqa (rs ! k) = Some bv"
    "\<forall>j<length rs. \<exists>w. ocrqa (rs ! j) = Some w \<and> w \<le> bv"
    "\<forall>j<k. \<exists>w. ocrqa (rs ! j) = Some w \<and> w < bv"
    by (auto simp: best_tracked_def)
  then have "earliest_maximum rs k" by (auto simp: earliest_maximum_def)
  moreover have "select_results p rs bi st = (Inr [rs ! k], append_stat (rs ! k) st)"
    using act k(1,2) by (simp add: select_results_def best_selection_active_def py_getitem_def)
  ultimately show ?thesis by blast
qed

lemma select_results_all:
  assumes "\<not> best_selection_active p \<or> rs = []" and ok: "flow_ok p (Gathered rs bv bi)"
  shows "select_results p rs bi st = (Inr rs, foldl (\<lambda>s r. append_stat r s) st rs)"
proof (cases "best_selection_active p")
  case False
  then show ?thesis by (simp add: select_results_def best_selection_active_def)
next
  case True
  with assms have "rs = []" by simp
  with ok have "bi = - 1" by (simp add: flow_ok_def)
  then show ?thesis by (simp add: select_results_def)
qed

lemma process_line_ok:
  assumes wf: "well_formed p" and line: "line \<noteq> Unparseable"
  shows "\<exists>rs st'. process_line p line st = (Inr rs, st')
     \<and> (\<forall>l. \<not> prefix (ustr ''missing-dict-for-'') l \<longrightarrow>
          lang_stats st' l =
            lang_stats st l + length (filter (\<lambda>r. lg r = l) (candidates p line st)))
     \<and> (if best_selection_active p \<and> candidates p line st \<noteq> []
         then \<exists>k. earliest_maximum (candidates p line st) k \<and> rs = [candidates p line st ! k]
         else rs = candidates p line st)
     \<and> subseq (map lg (candidates p line st)) (languages p)"
proof -
  from gather_results_ok [OF wf line, of st] obtain flow st1 where
    g: "gather_results p line st = (Inr flow, st1)" and ok: "flow_ok p flow"
    and ls: "\<forall>l. \<not> prefix (ustr ''missing-dict-for-'') l \<longrightarrow>
          lang_stats st1 l = lang_stats st l + length (filter (\<lambda>r. lg r = l) (gathered flow))"
    by blast
  note c = candidates_gathered [OF g]
  show ?thesis
  proof (cases flow)
    case (Returned rs)
    with ok have "rs = []" by (simp add: flow_ok_def)
    with Returned g ls show ?thesis
      by (simp add: process_line_def c gathered_def)
  next
    case (Gathered rs bv bi)
    with ok have sub: "subseq (map lg rs) (languages p)" by (simp add: flow_ok_def)
    have cg: "candidates p line st = rs" by (simp add: c Gathered gathered_def)
    show ?thesis
    proof (cases "best_selection_active p \<and> rs \<noteq> []")
      case True
      from select_results_best [of p rs bv bi st1] True ok Gathered obtain k where
        "earliest_maximum rs k"
        "select_results p rs bi st1 = (Inr [rs ! k], append_stat (rs ! k) st1)"
        by blast
      with True g ls sub show ?thesis
        by (auto simp: process_line_def Gathered cg gathered_def)
    next
      case False
      then have "\<not> best_selection_active p \<or> rs = []" by blast
      from select_results_all [OF this, of bv bi st1] ok Gathered
      have "select_results p rs bi st1 = (Inr rs, foldl (\<lambda>s r. append_stat r s) st1 rs)"
        by simp
      with False g ls sub show ?thesis
        by (auto simp: process_line_def Gathered cg gathered_def)
    qed
  qed
qed

lemma process_line_Unparseable: "process_line p Unparseable st = (Inl JSONDecodeError, st)"
  by (simp add: process_line_def gather_results_def json_loads_def)

lemma candidates_Unparseable: "candidates p Unparseable st = []"
  by (simp add: candidates_def gather_results_def json_loads_def)

text \<open>
  C2. When best-selection is active and the document has at least one candidate,
  \<^verbatim>\<open>process_line\<close> returns exactly one record: the candidate at the earliest position
  \<open>k\<close> whose \<^verbatim>\<open>ocrqa\<close> is maximal (every candidate is at most it, every earlier one is
  strictly below it). The candidates stand in the order of the configured languages, so
  on a tie the language listed first wins.
\<close>

theorem best_selection_emits_earliest_maximum:
  assumes "well_formed p" and "best_selection_active p" and "candidates p line st \<noteq> []"
  shows "\<exists>k v st'.
           process_line p line st = (Inr [candidates p line st ! k], st')
         \<and> k < length (candidates p line st)
         \<and> ocrqa (candidates p line st ! k) = Some v
         \<and> (\<forall>j<length (candidates p line st).
               \<exists>w. ocrqa (candidates p line st ! j) = Some w \<and> w \<le> v)
         \<and> (\<forall>j<k. \<exists>w. ocrqa (candidates p line st ! j) = Some w \<and> w < v)
         \<and> subseq (map lg (candidates p line st)) (languages p)"
proof -
  from assms(3) have line: "line \<noteq> Unparseable" using candidates_Unparseable by auto
  from process_line_ok [OF assms(1) line, of st] assms(2,3) obtain rs st' k where
    "process_line p line st = (Inr rs, st')" "earliest_maximum (candidates p line st) k"
    "rs = [candidates p line st ! k]" "subseq (map lg (candidates p line st)) (languages p)"
    by auto
  then show ?thesis unfolding earliest_maximum_def by blast
qed

lemma run_lines_ok:
  assumes wf: "well_formed p" and "Unparseable \<notin> set lines"
    and l: "\<not> prefix (ustr ''missing-dict-for-'') l"
  shows "\<exists>st' emitted. run_lines p lines st out = (None, st', out @ emitted)
     \<and> lang_stats st' l = lang_stats st l + length (filter (\<lambda>r. lg r = l) (run_candidates p lines st))
     \<and> length (filter (\<lambda>r. lg r = l) emitted)
         \<le> length (filter (\<lambda>r. lg r = l) (run_candidates p lines st))
     \<and> (\<not> best_selection_active p \<longrightarrow> emitted = run_candidates p lines st)"
  using assms(2)
proof (induction lines arbitrary: st out)
  case Nil
  then show ?case by simp
next
  case (Cons line lines)
  then have line: "line \<noteq> Unparseable" and rest: "Unparseable \<notin> set lines" by auto
  from process_line_ok [OF wf line, of st] l obtain rs st1 where
    pl: "process_line p line st = (Inr rs, st1)"
    and ls: "lang_stats st1 l =
            lang_stats st l + length (filter (\<lambda>r. lg r = l) (candidates p line st))"
    and sel: "if best_selection_active p \<and> candidates p line st \<noteq> []
         then \<exists>k. earliest_maximum (candidates p line st) k \<and> rs = [candidates p line st ! k]
         else rs = candidates p line st"
    by blast
  have le: "length (filter (\<lambda>r. lg r = l) rs)
      \<le> length (filter (\<lambda>r. lg r = l) (candidates p line st))"
  proof (cases "best_selection_active p \<and> candidates p line st \<noteq> []")
    case True
    with sel obtain k where k: "k < length (candidates p line st)"
      "rs = [candidates p line st ! k]" by (auto simp: earliest_maximum_def)
    then have "candidates p line st ! k \<in> set (candidates p line st)" by simp
    then have "lg (candidates p line st ! k) = l \<Longrightarrow>
        Suc 0 \<le> length (filter (\<lambda>r. lg r = l) (candidates p line st))"
      by (simp add: Suc_le_eq filter_empty_conv) blast
    with k(2) show ?thesis by auto
  next
    case False
    with sel show ?thesis by auto
  qed
  have inact: "\<not> best_selection_active p \<longrightarrow> rs = candidates p line st"
    using sel by auto
  from Cons.IH [OF rest, of st1 "out @ rs"] obtain st' emitted where
    ih: "run_lines p lines st1 (out @ rs) = (None, st', (out @ rs) @ emitted)"
    "lang_stats st' l = lang_stats st1 l + length (filter (\<lambda>r. lg r = l) (run_candidates p lines st1))"
    "length (filter (\<lambda>r. lg r = l) emitted)
         \<le> length (filter (\<lambda>r. lg r = l) (run_candidates p lines st1))"
    "\<not> best_selection_active p \<longrightarrow> emitted = run_candidates p lines st1"
    by blast
  show ?case
    using pl ls le inact ih
    by (intro exI [of _ st'] exI [of _ "rs @ emitted"]) simp
qed

lemma run_lines_None_parseable:
  "run_lines p lines st out = (None, st', out') \<Longrightarrow> Unparseable \<notin> set lines"
proof (induction lines arbitrary: st out)
  case Nil
  then show ?case by simp
next
  case (Cons line lines)
  show ?case
  proof (cases "line = Unparseable")
    case True
    with Cons.prems show ?thesis by (simp add: process_line_Unparseable)
  next
    case False
    with Cons show ?thesis by (auto split: prod.splits sum.splits)
  qed
qed

section \<open>Options that \<^verbatim>\<open>process_line\<close> does not read\<close>

lemma compute_results_ssc [simp]:
  "compute_results (p\<lparr>single_symbol_cost := c\<rparr>) info xs bf lang i kbm bv bi rs st =
   compute_results p info xs bf lang i kbm bv bi rs st"
  by (simp add: compute_results_def slc_block_def unk_ratio_block_def unk_type_ratio_block_def
      compute_ocrqa_slc_def Let_def
      cong: sum.case_cong option.case_cong prod.case_cong if_cong)

lemma get_subtokens_ssc [simp]:
  "get_subtokens (p\<lparr>single_symbol_cost := c\<rparr>) line l = get_subtokens p line l"
  by (simp add: get_subtokens_def Let_def cong: sum.case_cong option.case_cong prod.case_cong)

lemma gather_all_languages_ssc [simp]:
  "gather_all_languages (p\<lparr>single_symbol_cost := c\<rparr>) line kbm ibs acc st =
   gather_all_languages p line kbm ibs acc st"
proof (induction ibs arbitrary: acc st)
  case Nil
  then show ?case by simp
next
  case (Cons ib ibs)
  obtain i bf where ib: "ib = (i, bf)" by (cases ib)
  obtain rs bv bi where acc: "acc = (rs, bv, bi)" by (cases acc)
  show ?case
    by (simp add: ib acc Cons.IH Let_def cong: sum.case_cong prod.case_cong if_cong)
qed

lemma process_line_ssc [simp]:
  "process_line (p\<lparr>single_symbol_cost := c\<rparr>) line st = process_line p line st"
  by (simp add: process_line_def gather_results_def gather_labelled_def keep_best_method_of_def
      select_results_def Let_def
      cong: sum.case_cong option.case_cong prod.case_cong line_flow.case_cong if_cong)

lemma run_lines_ssc [simp]:
  "run_lines (p\<lparr>single_symbol_cost := c\<rparr>) lines st out = run_lines p lines st out"
  by (induction lines arbitrary: st out) (simp_all cong: prod.case_cong sum.case_cong)

lemma compute_results_kb [simp]:
  "compute_results (p\<lparr>keep_best := b\<rparr>) info xs bf lang i kbm bv bi rs st =
   compute_results p info xs bf lang i kbm bv bi rs st"
  by (simp add: compute_results_def slc_block_def unk_ratio_block_def unk_type_ratio_block_def
      compute_ocrqa_slc_def Let_def
      cong: sum.case_cong option.case_cong prod.case_cong if_cong)

lemma get_subtokens_kb [simp]:
  "get_subtokens (p\<lparr>keep_best := b\<rparr>) line l = get_subtokens p line l"
  by (simp add: get_subtokens_def Let_def cong: sum.case_cong option.case_cong prod.case_cong)

lemma gather_all_languages_kb [simp]:
  "gather_all_languages (p\<lparr>keep_best := b\<rparr>) line kbm ibs acc st =
   gather_all_languages p line kbm ibs acc st"
proof (induction ibs arbitrary: acc st)
  case Nil
  then show ?case by simp
next
  case (Cons ib ibs)
  obtain i bf where ib: "ib = (i, bf)" by (cases ib)
  obtain rs bv bi where acc: "acc = (rs, bv, bi)" by (cases acc)
  show ?case
    by (simp add: ib acc Cons.IH Let_def cong: sum.case_cong prod.case_cong if_cong)
qed

lemma process_line_single_method:
  "length (methods p) = 1 \<Longrightarrow>
   process_line (p\<lparr>keep_best := b\<rparr>) line st = process_line p line st"
  by (simp add: process_line_def gather_results_def gather_labelled_def keep_best_method_of_def
      select_results_def Let_def
      cong: sum.case_cong option.case_cong prod.case_cong line_flow.case_cong if_cong)

text \<open>
  C7. With exactly one configured method, best-selection is active whatever
  \<^verbatim>\<open>keep_best\<close> is (\<^verbatim>\<open>process_line\<close> does the same for either value of the flag), and a
  document with at least one candidate yields exactly one record, one of its candidates;
  a document that parses to an object with string fields and has no candidate yields none.
\<close>

theorem single_method_emits_one:
  assumes "well_formed p" and "length (methods p) = 1"
  shows "best_selection_active p
       \<and> process_line (p\<lparr>keep_best := b\<rparr>) line st = process_line p line st
       \<and> (candidates p line st \<noteq> [] \<longrightarrow>
            (\<exists>r st'. process_line p line st = (Inr [r], st') \<and> r \<in> set (candidates p line st)))
       \<and> (line \<noteq> Unparseable \<and> candidates p line st = [] \<longrightarrow>
            (\<exists>st'. process_line p line st = (Inr [], st')))"
proof -
  have act: "best_selection_active p" using assms(2) by (simp add: best_selection_active_def)
  have one: "candidates p line st \<noteq> [] \<longrightarrow>
      (\<exists>r st'. process_line p line st = (Inr [r], st') \<and> r \<in> set (candidates p line st))"
  proof
    assume ne: "candidates p line st \<noteq> []"
    then have line: "line \<noteq> Unparseable" using candidates_Unparseable by auto
    from process_line_ok [OF assms(1) line, of st] act ne obtain rs st' k where
      "process_line p line st = (Inr rs, st')" "earliest_maximum (candidates p line st) k"
      "rs = [candidates p line st ! k]"
      by auto
    then show "\<exists>r st'. process_line p line st = (Inr [r], st') \<and> r \<in> set (candidates p line st)"
      by (auto simp: earliest_maximum_def)
  qed
  have none: "line \<noteq> Unparseable \<and> candidates p line st = [] \<longrightarrow>
      (\<exists>st'. process_line p line st = (Inr [], st'))"
  proof
    assume a: "line \<noteq> Unparseable \<and> candidates p line st = []"
    with process_line_ok [OF assms(1), of line st] show "\<exists>st'. process_line p line st = (Inr [], st')"
      by auto
  qed
  from act one none process_line_single_method [OF assms(2)] show ?thesis by blast
qed

section \<open>Best-selection, the language counters and the mean on the example\<close>

lemma ex_well_formed: "well_formed ex_processor"
  by (simp add: well_formed_def ex_processor_def ex_options_def options.defs processor.defs)

lemma ex_candidates:
  "map lg (candidates ex_processor ex_doc ex_stats) = [ustr ''en'', ustr ''fr'']"
  by code_simp

lemma ex_process_line:
  "map lg (case fst (process_line ex_processor ex_doc ex_stats) of Inr rs \<Rightarrow> rs | Inl e \<Rightarrow> []) = [ustr ''en'']"
  by code_simp

lemma ex_active: "best_selection_active ex_processor"
  by (simp add: best_selection_active_def ex_processor_def ex_options_def options.defs)

lemma ex_tie_candidates:
  "map lg (candidates ex_processor ex_tie_doc ex_stats) = [ustr ''en'', ustr ''fr'']
   \<and> map ocrqa (candidates ex_processor ex_tie_doc ex_stats) = [Some 0, Some 0]"
  by code_simp

lemma ex_tie_emitted:
  "map lg (case fst (process_line ex_processor ex_tie_doc ex_stats) of Inr rs \<Rightarrow> rs | Inl e \<Rightarrow> [])
     = [ustr ''en'']"
  by code_simp

theorem best_selection_emits_earliest_maximum_witness:
  "well_formed ex_processor \<and> best_selection_active ex_processor
   \<and> map lg (candidates ex_processor ex_tie_doc ex_stats) = [ustr ''en'', ustr ''fr'']
   \<and> map ocrqa (candidates ex_processor ex_tie_doc ex_stats) = [Some 0, Some 0]
   \<and> (\<exists>k v st'.
           process_line ex_processor ex_tie_doc ex_stats
             = (Inr [candidates ex_processor ex_tie_doc ex_stats ! k], st')
         \<and> k < length (candidates ex_processor ex_tie_doc ex_stats)
         \<and> ocrqa (candidates ex_processor ex_tie_doc ex_stats ! k) = Some v
         \<and> (\<forall>j<length (candidates ex_processor ex_tie_doc ex_stats).
               \<exists>w. ocrqa (candidates ex_processor ex_tie_doc ex_stats ! j) = Some w \<and> w \<le> v)
         \<and> (\<forall>j<k. \<exists>w. ocrqa (candidates ex_processor ex_tie_doc ex_stats ! j) = Some w \<and> w < v)
         \<and> subseq (map lg (candidates ex_processor ex_tie_doc ex_stats)) (languages ex_processor))
   \<and> map lg (case fst (process_line ex_processor ex_tie_doc ex_stats) of
                Inr rs \<Rightarrow> rs | Inl e \<Rightarrow> []) = [ustr ''en'']"
proof -
  have ne: "candidates ex_processor ex_tie_doc ex_stats \<noteq> []"
    using ex_tie_candidates by auto
  from best_selection_emits_earliest_maximum [OF ex_well_formed ex_active ne]
  show ?thesis using ex_well_formed ex_active ex_tie_candidates ex_tie_emitted by blast
qed

theorem single_method_emits_one_witness:
  "well_formed ex_processor \<and> length (methods ex_processor) = 1
   \<and> candidates ex_processor ex_doc ex_stats \<noteq> []
   \<and> best_selection_active ex_processor
   \<and> process_line (ex_processor\<lparr>keep_best := True\<rparr>) ex_doc ex_stats
       = process_line ex_processor ex_doc ex_stats
   \<and> (\<exists>r st'. process_line ex_processor ex_doc ex_stats = (Inr [r], st')
         \<and> r \<in> set (candidates ex_processor ex_doc ex_stats))"
proof -
  have one: "length (methods ex_processor) = 1"
    by (simp add: ex_processor_def ex_options_def options.defs)
  have ne: "candidates ex_processor ex_doc ex_stats \<noteq> []"
    using ex_candidates by auto
  from single_method_emits_one [OF ex_well_formed one, of True ex_doc ex_stats]
  show ?thesis using ex_well_formed one ne by blast
qed

text \<open>
  The candidates of a document are its trials that meet the minimum subtoken count, one
  candidate per such trial and in the same order.
\<close>

lemma get_subtokens_count:
  "get_subtokens p line (Some lang) = Inr info \<Longrightarrow>
   int (length (si_subtokens info)) = subtoken_count p line lang"
  by (cases line)
    (auto simp: get_subtokens_def json_loads_def subtoken_count_def Let_def split: option.splits)

lemma expected_candidates_trials:
  assumes "line \<noteq> Unparseable"
  shows "map lg (expected_candidates p line ibs) =
     filter (\<lambda>lang. min_subtokens p \<le> subtoken_count p line lang)
       (map (\<lambda>(i, bf). languages p ! i) ibs)"
proof (induction ibs)
  case Nil
  then show ?case by simp
next
  case (Cons ib ibs)
  obtain i bf where ib: "ib = (i, bf)" by (cases ib)
  from get_subtokens_parseable [OF assms] obtain info where
    info: "get_subtokens p line (Some (languages p ! i)) = Inr info" by blast
  from get_subtokens_count [OF info] Cons.IH show ?case
    by (auto simp: ib info expected_result_def)
qed

lemma language_label_eq:
  "(case (case lang_ident_data p of None \<Rightarrow> None | Some d \<Rightarrow> d docid) of
      None \<Rightarrow> None
    | Some l \<Rightarrow> if l = [] then None else Some l) = language_label p docid"
  by (simp add: language_label_def split: option.splits)

lemma candidates_unlabelled:
  assumes wf: "well_formed p" and line: "line = JObject docid ft"
    and lab: "language_label p docid = None"
  shows "map lg (candidates p line st) =
     filter (\<lambda>lang. min_subtokens p \<le> subtoken_count p line lang) (languages p)"
proof -
  let ?ibs = "enumerate 0 (bloom_filters p)"
  from wf have len: "length (bloomdicts p) = length (languages p)"
      "length (bloom_filters p) = length (languages p)" and m: "methods p \<noteq> []"
    by (simp_all add: well_formed_def)
  have np: "line \<noteq> Unparseable" by (simp add: line)
  have rng: "\<forall>(i, bf) \<in> set ?ibs. i < length (languages p) \<and> i < length (bloomdicts p)"
    using len by (auto simp: in_set_enumerate_eq)
  from gather_all_languages_ok [OF rng m method_kept_cases np, of "[]" "- 1" "- 1" st]
  obtain st' where
    g: "gather_all_languages p line (method_kept p) ?ibs ([], - 1, - 1) st =
         (Inr ([] @ expected_candidates p line ?ibs,
               track_best (method_kept p) (expected_candidates p line ?ibs) (length ([]::result list))
                 (- 1, - 1)), st')"
    by blast
  obtain bv bi where tb:
    "track_best (method_kept p) (expected_candidates p line ?ibs) 0 (- 1, - 1) = (bv, bi)"
    by (cases "track_best (method_kept p) (expected_candidates p line ?ibs) 0 (- 1, - 1)")
  have "gather_results p line st =
      (Inr (Gathered (expected_candidates p line ?ibs) bv bi), st')"
    using g tb
    unfolding gather_results_def line json_loads_def keep_best_method_of_ok [OF m]
    by (simp add: Let_def language_label_eq lab)
  then have "candidates p line st = expected_candidates p line ?ibs"
    by (simp add: candidates_def)
  moreover have "map (\<lambda>(i, bf). languages p ! i) ?ibs = languages p"
    using map_enumerate_nth [of 0 "bloom_filters p" "languages p"] len by simp
  ultimately show ?thesis using expected_candidates_trials [OF np, of p ?ibs] by simp
qed

lemma candidates_labelled:
  assumes wf: "well_formed p" and line: "line = JObject docid ft"
    and lab: "language_label p docid = Some lang"
  shows "map lg (candidates p line st) =
     filter (\<lambda>lang. min_subtokens p \<le> subtoken_count p line lang)
       (if lang \<in> set (languages p) then [lang] else [])"
proof -
  from wf have m: "methods p \<noteq> []" by (simp add: well_formed_def)
  have np: "line \<noteq> Unparseable" by (simp add: line)
  have gr: "gather_results p line st = gather_labelled p line (method_kept p) lang st"
    unfolding gather_results_def line json_loads_def keep_best_method_of_ok [OF m]
    by (simp add: Let_def language_label_eq lab)
  show ?thesis
  proof (cases "lang \<in> set (languages p)")
    case False
    then show ?thesis by (simp add: candidates_def gr gather_labelled_def)
  next
    case True
    from get_subtokens_parseable [OF np] obtain info where
      info: "get_subtokens p line (Some lang) = Inr info" by blast
    note cnt = get_subtokens_count [OF info]
    show ?thesis
    proof (cases "int (length (si_subtokens info)) < min_subtokens p")
      case short: True
      with True info cnt show ?thesis
        by (simp add: candidates_def gr gather_labelled_def)
    next
      case long: False
      from list_index_ok [OF True] obtain k where
        k: "list_index (languages p) lang = Inr k" "k < length (languages p)"
        by blast
      from wf k(2) have kb: "k < length (bloomdicts p)" "k < length (bloom_filters p)"
        by (simp_all add: well_formed_def)
      have gb: "py_getitem (bloom_filters p) (int k) = Inr (bloom_filters p ! k)"
        using kb by (simp add: py_getitem_def)
      let ?r = "expected_result p info (bloom_filters p ! k) lang k"
      from compute_results_ok [OF kb(1) m method_kept_cases refl,
          of info "bloom_filters p ! k" lang "- 1" "- 1" "[]" st]
      obtain st1 where cr: "compute_results p info (si_subtokens info) (bloom_filters p ! k) lang k
          (method_kept p) (- 1) (- 1) [] st =
        (Inr (?r, next_best (method_kept p) ?r 0 (- 1, - 1)), st1)"
        by auto
      obtain bv1 bi1 where nb: "next_best (method_kept p) ?r 0 (- 1, - 1) = (bv1, bi1)"
        by (cases "next_best (method_kept p) ?r 0 (- 1, - 1)")
      have "gather_labelled p line (method_kept p) lang st =
          (Inr (Gathered [?r] bv1 bi1), count_lang lang st1)"
        using True long info k(1) gb cr nb by (simp add: gather_labelled_def)
      then have "candidates p line st = [?r]" by (simp add: candidates_def gr)
      with True long cnt show ?thesis by (simp add: expected_result_def)
    qed
  qed
qed

lemma candidates_counted_trials:
  assumes "well_formed p"
  shows "map lg (candidates p line st) = counted_trials p line"
proof (cases line)
  case Unparseable
  then show ?thesis
    by (simp add: candidates_Unparseable counted_trials_def trial_languages_def)
next
  case (JObject docid ft)
  show ?thesis
  proof (cases "language_label p docid")
    case None
    from candidates_unlabelled [OF assms JObject None, of st] None show ?thesis
      by (simp add: counted_trials_def trial_languages_def JObject)
  next
    case (Some lang)
    from candidates_labelled [OF assms JObject Some, of st] Some show ?thesis
      by (simp add: counted_trials_def trial_languages_def JObject)
  qed
qed

lemma run_candidates_counted_trials:
  assumes "well_formed p" and "Unparseable \<notin> set lines"
  shows "map lg (run_candidates p lines st) = concat (map (counted_trials p) lines)"
  using assms(2)
proof (induction lines arbitrary: st)
  case Nil
  then show ?case by simp
next
  case (Cons line lines)
  then have line: "line \<noteq> Unparseable" and rest: "Unparseable \<notin> set lines" by auto
  from process_line_ok [OF assms(1) line, of st] obtain rs st1 where
    "process_line p line st = (Inr rs, st1)" by blast
  with Cons.IH [OF rest, of st1] candidates_counted_trials [OF assms(1), of line st]
  show ?case by simp
qed

lemma count_lg:
  "length (filter (\<lambda>r. lg r = l) rs) = length (filter (\<lambda>lang. lang = l) (map lg rs))"
  by (simp add: filter_map o_def)

text \<open>
  C6, as amended. At the end of a run that no exception ended, the count of a language
  \<open>l\<close> (a key that is not one of the \<^verbatim>\<open>missing-dict-for-...\<close> counters) has grown by the
  number of trials of \<open>l\<close> that met the minimum subtoken count: over all documents, the
  label's language when it is configured, or every configured language when there is no
  label, kept when the subtoken count for that language is at least \<^verbatim>\<open>min_subtokens\<close>.
  These trials are exactly the candidate records: the counter is incremented once per
  candidate, when \<^verbatim>\<open>compute_results\<close> returns, before the selection. The printed records
  of language \<open>l\<close> are at most as many, and the printed records are exactly the
  candidates when best-selection is inactive.
\<close>

theorem lang_stats_counts_candidates:
  assumes "well_formed p" and "raised (run p input_files st) = None"
    and "\<not> prefix (ustr ''missing-dict-for-'') l"
  shows "lang_stats (final_stats (run p input_files st)) l =
           lang_stats st l
           + length (filter (\<lambda>lang. lang = l)
                       (concat (map (counted_trials p) (concat input_files))))
       \<and> map lg (run_candidates p (concat input_files) st)
           = concat (map (counted_trials p) (concat input_files))
       \<and> length (filter (\<lambda>r. lg r = l) (printed (run p input_files st)))
           \<le> length (filter (\<lambda>lang. lang = l)
                        (concat (map (counted_trials p) (concat input_files))))
       \<and> (\<not> best_selection_active p \<longrightarrow>
            printed (run p input_files st) = run_candidates p (concat input_files) st)"
proof -
  obtain err st1 out1 where r: "run_lines p (concat input_files) st [] = (err, st1, out1)"
    by (cases "run_lines p (concat input_files) st []")
  with assms(2) have err: "err = None" by (cases err) (simp_all add: run_def)
  from run_lines_None_parseable [OF r [unfolded err]]
  have np: "Unparseable \<notin> set (concat input_files)" .
  note ct = run_candidates_counted_trials [OF assms(1) np, of st]
  from run_lines_ok [OF assms(1) np assms(3), of st "[]"] r err
  have "lang_stats (final_stats (run p input_files st)) l =
           lang_stats st l
           + length (filter (\<lambda>r. lg r = l) (run_candidates p (concat input_files) st))
       \<and> length (filter (\<lambda>r. lg r = l) (printed (run p input_files st)))
           \<le> length (filter (\<lambda>r. lg r = l) (run_candidates p (concat input_files) st))
       \<and> (\<not> best_selection_active p \<longrightarrow>
            printed (run p input_files st) = run_candidates p (concat input_files) st)"
    by (auto simp: run_def)
  then show ?thesis unfolding count_lg [of l "run_candidates p (concat input_files) st"] ct
    using ct by simp
qed

theorem lang_stats_counts_candidates_witness:
  "well_formed ex_processor \<and> raised (run ex_processor [[ex_doc, ex_short_doc]] ex_stats) = None
   \<and> \<not> prefix (ustr ''missing-dict-for-'') (ustr ''fr'')
   \<and> counted_trials ex_processor ex_doc = [ustr ''en'', ustr ''fr'']
   \<and> counted_trials ex_processor ex_short_doc = []
   \<and> lang_stats (final_stats (run ex_processor [[ex_doc, ex_short_doc]] ex_stats)) (ustr ''fr'') =
           lang_stats ex_stats (ustr ''fr'')
           + length (filter (\<lambda>lang. lang = ustr ''fr'')
                       (concat (map (counted_trials ex_processor)
                                  (concat [[ex_doc, ex_short_doc]]))))
   \<and> lang_stats (final_stats (run ex_processor [[ex_doc, ex_short_doc]] ex_stats)) (ustr ''fr'') = 1
   \<and> map lg (run_candidates ex_processor (concat [[ex_doc, ex_short_doc]]) ex_stats)
           = concat (map (counted_trials ex_processor) (concat [[ex_doc, ex_short_doc]]))
   \<and> length (filter (\<lambda>r. lg r = ustr ''fr'')
                (printed (run ex_processor [[ex_doc, ex_short_doc]] ex_stats)))
           \<le> length (filter (\<lambda>lang. lang = ustr ''fr'')
                        (concat (map (counted_trials ex_processor)
                                   (concat [[ex_doc, ex_short_doc]]))))"
proof -
  have ok: "raised (run ex_processor [[ex_doc, ex_short_doc]] ex_stats) = None" by code_simp
  have np: "\<not> prefix (ustr ''missing-dict-for-'') (ustr ''fr'')" by (simp add: ustr_def)
  have t1: "counted_trials ex_processor ex_doc = [ustr ''en'', ustr ''fr'']" by code_simp
  have t2: "counted_trials ex_processor ex_short_doc = []" by code_simp
  have one: "lang_stats (final_stats (run ex_processor [[ex_doc, ex_short_doc]] ex_stats))
      (ustr ''fr'') = 1" by code_simp
  from lang_stats_counts_candidates [OF ex_well_formed ok np]
  show ?thesis using ex_well_formed ok np t1 t2 one by blast
qed

text \<open>
  C6 as stated fails: with one method, the document \<open>The cat\<close> yields a candidate for
  each of the two languages; only the record of \<open>en\<close> is printed, and the counter of
  \<open>fr\<close> is 1.
\<close>

theorem discarded_candidate_is_counted:
  "map lg (printed (run ex_processor [[ex_doc]] ex_stats)) = [ustr ''en'']
   \<and> lang_stats (final_stats (run ex_processor [[ex_doc]] ex_stats)) (ustr ''fr'') = 1
   \<and> lang_stats (final_stats (run ex_processor [[ex_doc]] ex_stats)) (ustr ''en'') = 1"
  by code_simp

text \<open>
  C3 on the same run (method \<^verbatim>\<open>slc\<close>, two languages, one document): the one printed
  record has \<^verbatim>\<open>ocrqa\<close> 1, but \<^verbatim>\<open>ocrqa_stats\<close> holds three entries, the \<^verbatim>\<open>slc\<close> score of
  each of the two candidates appended by \<^verbatim>\<open>compute_results\<close> and the score of the printed
  record appended again by \<^verbatim>\<open>process_line\<close>, so the logged mean is 2/3.
\<close>

theorem mean_counts_slc_of_every_candidate:
  "map ocrqa (printed (run ex_processor [[ex_doc]] ex_stats)) = [Some 1]
   \<and> ocrqa_stats (final_stats (run ex_processor [[ex_doc]] ex_stats)) = [1, 0, 1]
   \<and> mean_ocrqa (run ex_processor [[ex_doc]] ex_stats) = Some (2 / 3)"
  by code_simp

section \<open>Malformed records, the unused option and lowercasing\<close>

lemma run_lines_append:
  "run_lines p (xs @ ys) st out =
     (case run_lines p xs st out of
        (None, st1, out1) \<Rightarrow> run_lines p ys st1 out1
      | (Some e, st1, out1) \<Rightarrow> (Some e, st1, out1))"
proof (induction xs arbitrary: st out)
  case Nil
  then show ?case by simp
next
  case (Cons x xs)
  then show ?case by (simp split: prod.splits sum.splits)
qed

lemma run_lines_Unparseable_raises:
  "Unparseable \<in> set lines \<Longrightarrow> fst (run_lines p lines st out) \<noteq> None"
  using run_lines_None_parseable [of p lines st out]
  by (cases "run_lines p lines st out") auto

lemma run_Unparseable_raises:
  assumes "Unparseable \<in> set (concat input_files)"
  shows "raised (run p input_files st) \<noteq> None"
  using run_lines_Unparseable_raises [OF assms, of p st "[]"]
  by (cases "run_lines p (concat input_files) st []") (auto simp: run_def)

text \<open>
  C4, as amended. \<^verbatim>\<open>process_line\<close> raises on a record that does not parse, leaving the
  statistics as they were, and \<^verbatim>\<open>run\<close> has no handler: the loop ends at the first such
  record, with the records before it processed and printed and the records after it never
  processed. \<^verbatim>\<open>main\<close> catches the exception and exits with status 1.
\<close>

theorem malformed_record_ends_run:
  "process_line p Unparseable st = (Inl JSONDecodeError, st)
   \<and> run_lines p (before @ Unparseable # rest) st out =
        (case run_lines p before st out of
           (None, st1, out1) \<Rightarrow> (Some JSONDecodeError, st1, out1)
         | (Some e, st1, out1) \<Rightarrow> (Some e, st1, out1))
   \<and> (Unparseable \<in> set (concat input_files) \<longrightarrow>
        raised (run p input_files st) \<noteq> None \<and> fst (main opts rt input_files) = 1)"
proof -
  have a: "run_lines p (before @ Unparseable # rest) st out =
        (case run_lines p before st out of
           (None, st1, out1) \<Rightarrow> (Some JSONDecodeError, st1, out1)
         | (Some e, st1, out1) \<Rightarrow> (Some e, st1, out1))"
    by (simp add: run_lines_append process_line_Unparseable
        cong: prod.case_cong option.case_cong)
  have c: "fst (main opts rt input_files) = 1" if bad: "Unparseable \<in> set (concat input_files)"
  proof (cases "init opts rt")
    case (Inl e)
    then show ?thesis by (simp add: main_def)
  next
    case (Inr made)
    obtain q s where made: "made = (q, s)" by (cases made)
    from run_Unparseable_raises [OF bad, of q s] obtain e where
      "raised (run q input_files s) = Some e" by auto
    with Inr made show ?thesis by (simp add: main_def Let_def)
  qed
  from a c run_Unparseable_raises process_line_Unparseable show ?thesis by blast
qed

theorem malformed_record_ends_run_witness:
  "Unparseable \<in> set (concat [[ex_doc, Unparseable, ex_tie_doc]])
   \<and> process_line ex_processor Unparseable ex_stats = (Inl JSONDecodeError, ex_stats)
   \<and> run_lines ex_processor ([ex_doc] @ Unparseable # [ex_tie_doc]) ex_stats [] =
        (case run_lines ex_processor [ex_doc] ex_stats [] of
           (None, st1, out1) \<Rightarrow> (Some JSONDecodeError, st1, out1)
         | (Some e, st1, out1) \<Rightarrow> (Some e, st1, out1))
   \<and> raised (run ex_processor [[ex_doc, Unparseable, ex_tie_doc]] ex_stats) \<noteq> None
   \<and> fst (main ex_options ex_runtime [[ex_doc, Unparseable, ex_tie_doc]]) = 1
   \<and> map lg (snd (main ex_options ex_runtime [[ex_doc, Unparseable, ex_tie_doc]])) = [ustr ''en'']"
proof -
  have m: "Unparseable \<in> set (concat [[ex_doc, Unparseable, ex_tie_doc]])" by simp
  have e: "map lg (snd (main ex_options ex_runtime [[ex_doc, Unparseable, ex_tie_doc]]))
      = [ustr ''en'']" by code_simp
  from malformed_record_ends_run [of ex_processor ex_stats "[ex_doc]" "[ex_tie_doc]" "[]"
      "[[ex_doc, Unparseable, ex_tie_doc]]" ex_options ex_runtime]
  show ?thesis using m e by blast
qed

text \<open>
  C4 as stated fails: a malformed first record ends the run with \<^verbatim>\<open>JSONDecodeError\<close>; the
  well-formed record after it, which alone yields a record, is never processed, and
  \<^verbatim>\<open>main\<close> exits with status 1 and no output.
\<close>

theorem malformed_record_is_fatal:
  "main ex_options ex_runtime [[Unparseable, ex_doc]] = (1, [])
   \<and> raised (run ex_processor [[Unparseable, ex_doc]] ex_stats) = Some JSONDecodeError
   \<and> printed (run ex_processor [[Unparseable, ex_doc]] ex_stats) = []
   \<and> map lg (printed (run ex_processor [[ex_doc]] ex_stats)) = [ustr ''en'']"
  by code_simp

lemma run_ssc: "run (p\<lparr>single_symbol_cost := c\<rparr>) input_files st = run p input_files st"
  by (simp add: run_def)

lemma init_ssc:
  "init (opts\<lparr>single_symbol_cost := c\<rparr>) rt =
     (case init opts rt of
        Inl e \<Rightarrow> Inl e
      | Inr (q, st) \<Rightarrow> Inr (q\<lparr>single_symbol_cost := c\<rparr>, st))"
  by (simp add: init_def options.defs)

text \<open>
  C9. \<^verbatim>\<open>single_symbol_cost\<close> influences nothing: a run, and \<^verbatim>\<open>main\<close>, with any other
  value of the option give the same printed records, the same statistics and the same
  exit status.
\<close>

theorem single_symbol_cost_is_not_read:
  "run (p\<lparr>single_symbol_cost := c\<rparr>) input_files st = run p input_files st
   \<and> main (opts\<lparr>single_symbol_cost := c\<rparr>) rt input_files = main opts rt input_files"
proof -
  have "main (opts\<lparr>single_symbol_cost := c\<rparr>) rt input_files = main opts rt input_files"
    by (simp add: main_def init_ssc run_ssc split: sum.splits)
  with run_ssc show ?thesis by blast
qed

theorem single_symbol_cost_is_not_read_witness:
  "run (ex_processor\<lparr>single_symbol_cost := 9 / 10\<rparr>) [[ex_doc, ex_tie_doc]] ex_stats
     = run ex_processor [[ex_doc, ex_tie_doc]] ex_stats
   \<and> main (ex_options\<lparr>single_symbol_cost := 9 / 10\<rparr>) ex_runtime [[ex_doc, ex_tie_doc]]
     = main ex_options ex_runtime [[ex_doc, ex_tie_doc]]
   \<and> single_symbol_cost (ex_options\<lparr>single_symbol_cost := 9 / 10\<rparr>)
     \<noteq> single_symbol_cost ex_options"
proof -
  have "single_symbol_cost (ex_options\<lparr>single_symbol_cost := 9 / 10\<rparr>)
     \<noteq> single_symbol_cost ex_options" by (simp add: ex_options_def)
  with single_symbol_cost_is_not_read [where p = ex_processor and c = "9 / 10"
      and input_files = "[[ex_doc, ex_tie_doc]]" and st = ex_stats and opts = ex_options
      and rt = ex_runtime]
  show ?thesis by blast
qed

lemma get_subtokens_lowercased:
  assumes "\<forall>s. str_lower p (str_lower p s) = str_lower p s"
  shows "get_subtokens p (lowercased p line) language = get_subtokens p line language"
proof (cases line)
  case Unparseable
  then show ?thesis by (simp add: lowercased_def)
next
  case (JObject i ft)
  then show ?thesis using assms
    by (cases ft) (simp_all add: lowercased_def get_subtokens_def json_loads_def)
qed

lemma gather_all_languages_same_subtokens:
  assumes "\<forall>l. get_subtokens p line' l = get_subtokens p line l"
  shows "gather_all_languages p line' kbm ibs acc st = gather_all_languages p line kbm ibs acc st"
proof (induction ibs arbitrary: acc st)
  case Nil
  then show ?case by simp
next
  case (Cons ib ibs)
  obtain i bf where ib: "ib = (i, bf)" by (cases ib)
  obtain rs bv bi where acc: "acc = (rs, bv, bi)" by (cases acc)
  show ?case
    by (simp add: ib acc assms Cons.IH Let_def cong: sum.case_cong prod.case_cong if_cong)
qed

lemma json_loads_lowercased:
  "json_loads (lowercased p line) =
     (case json_loads line of
        Inl e \<Rightarrow> Inl e
      | Inr (i, ft) \<Rightarrow> Inr (i, map_option (str_lower p) ft))"
  by (cases line) (simp_all add: lowercased_def json_loads_def)

lemma process_line_lowercased:
  assumes "\<forall>s. str_lower p (str_lower p s) = str_lower p s"
  shows "process_line p (lowercased p line) st = process_line p line st"
proof -
  have gs: "\<forall>l. get_subtokens p (lowercased p line) l = get_subtokens p line l"
    using get_subtokens_lowercased [OF assms] by blast
  have "gather_results p (lowercased p line) st = gather_results p line st"
  proof (cases line)
    case Unparseable
    then show ?thesis by (simp add: lowercased_def)
  next
    case (JObject i ft)
    have "gather_labelled p (lowercased p line) kbm l st = gather_labelled p line kbm l st"
      for kbm l
      by (simp add: gather_labelled_def gs)
    moreover have jl: "json_loads line = Inr (i, ft)" by (simp add: JObject json_loads_def)
    moreover have "json_loads (lowercased p line) = Inr (i, map_option (str_lower p) ft)"
      by (simp add: json_loads_lowercased jl)
    ultimately show ?thesis
      unfolding gather_results_def
      by (simp add: gather_all_languages_same_subtokens [OF gs]
          cong: sum.case_cong option.case_cong prod.case_cong)
  qed
  then show ?thesis by (simp add: process_line_def)
qed

lemma run_lines_lowercased:
  assumes "\<forall>s. str_lower p (str_lower p s) = str_lower p s"
  shows "run_lines p (map (lowercased p) lines) st out = run_lines p lines st out"
  by (induction lines arbitrary: st out)
    (simp_all add: process_line_lowercased [OF assms] cong: prod.case_cong sum.case_cong)

text \<open>
  C10. \<^verbatim>\<open>get_subtokens\<close> lowercases the text first, then normalizes it, then segments
  it, and the character length is that of the lowercased, normalized text. Hence, for a
  lowercasing that leaves lowercased text unchanged (as \<^verbatim>\<open>str.lower\<close> does), replacing the
  text of a record by its lowercased form changes neither the extracted subtokens and
  character length nor what \<^verbatim>\<open>process_line\<close> and \<^verbatim>\<open>run\<close> return and accumulate.
\<close>

theorem lowercasing_input_changes_nothing:
  assumes "\<forall>s. str_lower p (str_lower p s) = str_lower p s"
  shows "get_subtokens p (JObject i (Some raw)) language =
           Inr \<lparr>si_id = i,
                si_subtokens =
                  subtokens p
                    (case unicode_normalization p of
                       None \<Rightarrow> str_lower p raw
                     | Some form \<Rightarrow> unicodedata_normalize p form (str_lower p raw))
                    (min_subtoken_length p) language,
                si_char_length =
                  int (length
                    (case unicode_normalization p of
                       None \<Rightarrow> str_lower p raw
                     | Some form \<Rightarrow> unicodedata_normalize p form (str_lower p raw)))\<rparr>
       \<and> get_subtokens p (lowercased p line) language = get_subtokens p line language
       \<and> process_line p (lowercased p line) st = process_line p line st
       \<and> run p (map (map (lowercased p)) input_files) st = run p input_files st"
proof -
  have a: "get_subtokens p (JObject i (Some raw)) language =
           Inr \<lparr>si_id = i,
                si_subtokens =
                  subtokens p
                    (case unicode_normalization p of
                       None \<Rightarrow> str_lower p raw
                     | Some form \<Rightarrow> unicodedata_normalize p form (str_lower p raw))
                    (min_subtoken_length p) language,
                si_char_length =
                  int (length
                    (case unicode_normalization p of
                       None \<Rightarrow> str_lower p raw
                     | Some form \<Rightarrow> unicodedata_normalize p form (str_lower p raw)))\<rparr>"
    by (simp add: get_subtokens_def json_loads_def Let_def)
  have "concat (map (map (lowercased p)) input_files) = map (lowercased p) (concat input_files)"
    by (simp add: map_concat)
  then have d: "run p (map (map (lowercased p)) input_files) st = run p input_files st"
    by (simp add: run_def run_lines_lowercased [OF assms])
  from a d get_subtokens_lowercased [OF assms] process_line_lowercased [OF assms]
  show ?thesis by blast
qed

lemma ascii_lower_idem: "ascii_lower (ascii_lower s) = ascii_lower s"
  by (simp add: ascii_lower_def)

theorem lowercasing_input_changes_nothing_witness:
  "lowercased ex_processor ex_doc = JObject (Some (ustr ''doc-1'')) (Some (ustr ''the cat''))
   \<and> get_subtokens ex_processor (lowercased ex_processor ex_doc) (Some (ustr ''en''))
       = get_subtokens ex_processor ex_doc (Some (ustr ''en''))
   \<and> process_line ex_processor (lowercased ex_processor ex_doc) ex_stats
       = process_line ex_processor ex_doc ex_stats
   \<and> run ex_processor (map (map (lowercased ex_processor)) [[ex_doc]]) ex_stats
       = run ex_processor [[ex_doc]] ex_stats"
proof -
  have lo: "str_lower ex_processor = ascii_lower"
    by (simp add: ex_processor_def ex_options_def ex_runtime_def options.defs processor.defs)
  have idem: "\<forall>s. str_lower ex_processor (str_lower ex_processor s) = str_lower ex_processor s"
    by (simp add: lo ascii_lower_idem)
  have l: "lowercased ex_processor ex_doc
      = JObject (Some (ustr ''doc-1'')) (Some (ustr ''the cat''))"
    by (simp add: lowercased_def ex_doc_def lo ascii_lower_def ustr_def)
  from lowercasing_input_changes_nothing [OF idem, where language = "Some (ustr ''en'')"
      and line = ex_doc and st = ex_stats and input_files = "[[ex_doc]]"]
  show ?thesis using l by blast
qed

end
